theory Spec2Isabelle
  imports Complex_Main "HOL-Library.Word"
begin

unbundle bit_operations_syntax

section \<open>Values\<close>

text \<open>
  The statistics scripts compute with numpy floats. Inputs read from the calibration,
  pose, time and point files are taken to be finite and are modelled as reals; sums,
  products and square roots of finite values are exact (rounding, overflow and signed
  zeros are not modelled). A quotient is the one place where the source can leave the
  finite values: numpy's true division does not raise on a zero divisor, it returns an
  infinity or NaN. Every value the source computes by a division is therefore an
  \<open>npfloat\<close>, and every operation applied to such a value follows IEEE 754 on the
  special values.
\<close>

datatype npfloat = Fin real | PosInf | NegInf | NaN

datatype error =
    IndexError          \<comment> \<open>non-empty boolean mask of the wrong length, index out of range\<close>
  | FileNotFoundError   \<comment> \<open>raised by the loaders on a missing or malformed file\<close>
  | ValueError          \<comment> \<open>reduction of an empty array\<close>

fun np_truediv :: "npfloat \<Rightarrow> npfloat \<Rightarrow> npfloat" where
  "np_truediv NaN _ = NaN"
| "np_truediv _ NaN = NaN"
| "np_truediv (Fin a) (Fin b) =
     (if b \<noteq> 0 then Fin (a / b)
      else if a = 0 then NaN else if 0 < a then PosInf else NegInf)"
| "np_truediv (Fin a) PosInf = Fin 0"
| "np_truediv (Fin a) NegInf = Fin 0"
| "np_truediv PosInf (Fin b) = (if 0 \<le> b then PosInf else NegInf)"
| "np_truediv NegInf (Fin b) = (if 0 \<le> b then NegInf else PosInf)"
| "np_truediv PosInf PosInf = NaN"
| "np_truediv PosInf NegInf = NaN"
| "np_truediv NegInf PosInf = NaN"
| "np_truediv NegInf NegInf = NaN"

fun np_add :: "npfloat \<Rightarrow> npfloat \<Rightarrow> npfloat" where
  "np_add NaN _ = NaN"
| "np_add _ NaN = NaN"
| "np_add (Fin a) (Fin b) = Fin (a + b)"
| "np_add (Fin a) PosInf = PosInf"
| "np_add (Fin a) NegInf = NegInf"
| "np_add PosInf (Fin b) = PosInf"
| "np_add NegInf (Fin b) = NegInf"
| "np_add PosInf PosInf = PosInf"
| "np_add NegInf NegInf = NegInf"
| "np_add PosInf NegInf = NaN"
| "np_add NegInf PosInf = NaN"

fun np_neg :: "npfloat \<Rightarrow> npfloat" where
  "np_neg (Fin a) = Fin (- a)"
| "np_neg PosInf = NegInf"
| "np_neg NegInf = PosInf"
| "np_neg NaN = NaN"

definition np_sub :: "npfloat \<Rightarrow> npfloat \<Rightarrow> npfloat" where
  "np_sub a b = np_add a (np_neg b)"

fun np_mul :: "npfloat \<Rightarrow> npfloat \<Rightarrow> npfloat" where
  "np_mul NaN _ = NaN"
| "np_mul _ NaN = NaN"
| "np_mul (Fin a) (Fin b) = Fin (a * b)"
| "np_mul (Fin a) PosInf = (if a = 0 then NaN else if 0 < a then PosInf else NegInf)"
| "np_mul (Fin a) NegInf = (if a = 0 then NaN else if 0 < a then NegInf else PosInf)"
| "np_mul PosInf (Fin b) = (if b = 0 then NaN else if 0 < b then PosInf else NegInf)"
| "np_mul NegInf (Fin b) = (if b = 0 then NaN else if 0 < b then NegInf else PosInf)"
| "np_mul PosInf PosInf = PosInf"
| "np_mul NegInf NegInf = PosInf"
| "np_mul PosInf NegInf = NegInf"
| "np_mul NegInf PosInf = NegInf"

text \<open>Comparisons: every comparison with NaN is false.\<close>

fun np_lt :: "npfloat \<Rightarrow> npfloat \<Rightarrow> bool" where
  "np_lt NaN _ = False"
| "np_lt _ NaN = False"
| "np_lt (Fin a) (Fin b) = (a < b)"
| "np_lt (Fin a) PosInf = True"
| "np_lt (Fin a) NegInf = False"
| "np_lt PosInf _ = False"
| "np_lt NegInf (Fin b) = True"
| "np_lt NegInf PosInf = True"
| "np_lt NegInf NegInf = False"

fun np_ge :: "npfloat \<Rightarrow> npfloat \<Rightarrow> bool" where
  "np_ge NaN _ = False"
| "np_ge _ NaN = False"
| "np_ge (Fin a) (Fin b) = (b \<le> a)"
| "np_ge (Fin a) PosInf = False"
| "np_ge (Fin a) NegInf = True"
| "np_ge PosInf _ = True"
| "np_ge NegInf (Fin b) = False"
| "np_ge NegInf PosInf = False"
| "np_ge NegInf NegInf = True"

definition np_gt :: "npfloat \<Rightarrow> npfloat \<Rightarrow> bool" where
  "np_gt a b = np_lt b a"

fun is_finite :: "npfloat \<Rightarrow> bool" where
  "is_finite (Fin a) = True"
| "is_finite _ = False"

text \<open>\<open>np.sum\<close> and \<open>np.mean\<close> of a one-dimensional array.\<close>

definition np_sum :: "npfloat list \<Rightarrow> npfloat" where
  "np_sum xs = foldl np_add (Fin 0) xs"

definition np_mean :: "npfloat list \<Rightarrow> npfloat" where
  "np_mean xs = np_truediv (np_sum xs) (Fin (real (length xs)))"

text \<open>
  Indexing an array with a boolean mask, \<open>xs[mask]\<close>. numpy checks the length of the
  mask against the array only when the mask is not empty: a mask of another length raises
  IndexError, an empty mask selects nothing from an array of any length, and a mask as
  long as the array keeps the entries whose flag is set.
\<close>

definition bool_index :: "'a list \<Rightarrow> bool list \<Rightarrow> error + 'a list" where
  "bool_index xs flags =
     (if flags \<noteq> [] \<and> length flags \<noteq> length xs then Inl IndexError
      else Inr (map fst (filter snd (zip xs flags))))"

definition bind_res :: "error + 'a \<Rightarrow> ('a \<Rightarrow> error + 'b) \<Rightarrow> error + 'b" where
  "bind_res r f = (case r of Inl e \<Rightarrow> Inl e | Inr v \<Rightarrow> f v)"

section \<open>Projection to the front view\<close>

text \<open>
  \<open>project_to_front_view\<close> has the same body in \<open>generate_train_statistics.py\<close> and
  in \<open>generate_test_statistics.py\<close>; one model serves both.
\<close>

type_synonym point = "real \<times> real \<times> real"
type_synonym row4 = "real \<times> real \<times> real \<times> real"
type_synonym mat34 = "row4 \<times> row4 \<times> row4"
type_synonym label = "32 word"
type_synonym pixel = "npfloat \<times> npfloat"

text \<open>
  \<open>load_calib\<close> reshapes \<open>Tr\<close> and \<open>P2\<close> to 3\<times>4 and stacks the row \<open>[0, 0, 0, 1]\<close>
  under \<open>Tr\<close>. A \<open>mat34\<close> holds the three rows read from the file.
\<close>

definition dot4 :: "row4 \<Rightarrow> row4 \<Rightarrow> real" where
  "dot4 r p = (case r of (a, b, c, d) \<Rightarrow> case p of (x, y, z, w) \<Rightarrow>
                 a * x + b * y + c * z + d * w)"

definition homogenize :: "point \<Rightarrow> row4" where
  "homogenize p = (case p of (x, y, z) \<Rightarrow> (x, y, z, 1))"

text \<open>One row of \<open>(Tr @ points_hom.T).T\<close>, with \<open>Tr\<close> the stacked 4\<times>4 matrix.\<close>

definition to_camera :: "mat34 \<Rightarrow> point \<Rightarrow> row4" where
  "to_camera Tr p = (case Tr of (r0, r1, r2) \<Rightarrow>
     (dot4 r0 (homogenize p), dot4 r1 (homogenize p), dot4 r2 (homogenize p),
      dot4 (0, 0, 0, 1) (homogenize p)))"

definition cam_z :: "mat34 \<Rightarrow> point \<Rightarrow> real" where
  "cam_z Tr p = (case to_camera Tr p of (cx, cy, cz, cw) \<Rightarrow> cz)"

text \<open>
  One row of \<open>(P2 @ hstack([points_cam[:, :3], ones]).T).T\<close>: the raw projective
  coordinates \<open>(u', v', w)\<close> of a camera-frame point.
\<close>

definition to_image_raw :: "mat34 \<Rightarrow> row4 \<Rightarrow> real \<times> real \<times> real" where
  "to_image_raw P2 c = (case c of (cx, cy, cz, cw) \<Rightarrow> case P2 of (r0, r1, r2) \<Rightarrow>
     (dot4 r0 (cx, cy, cz, 1), dot4 r1 (cx, cy, cz, 1), dot4 r2 (cx, cy, cz, 1)))"

definition proj_w :: "mat34 \<Rightarrow> mat34 \<Rightarrow> point \<Rightarrow> real" where
  "proj_w Tr P2 p = (case to_image_raw P2 (to_camera Tr p) of (u', v', w) \<Rightarrow> w)"

text \<open>\<open>points_img[:, :2] / points_img[:, 2:]\<close>, one row: an unguarded division.\<close>

definition perspective_divide :: "real \<times> real \<times> real \<Rightarrow> pixel" where
  "perspective_divide r = (case r of (u', v', w) \<Rightarrow>
     (np_truediv (Fin u') (Fin w), np_truediv (Fin v') (Fin w)))"

definition project_point :: "mat34 \<Rightarrow> mat34 \<Rightarrow> point \<Rightarrow> pixel" where
  "project_point Tr P2 p = perspective_divide (to_image_raw P2 (to_camera Tr p))"

definition in_image :: "pixel \<Rightarrow> bool" where
  "in_image q = (case q of (u, v) \<Rightarrow>
     np_ge u (Fin 0) \<and> np_lt u (Fin 1242) \<and> np_ge v (Fin 0) \<and> np_lt v (Fin 375))"

text \<open>
  The array \<open>points_img\<close> after the division and before the image mask: one pixel for
  each row of \<open>points_cam[mask_z]\<close>.
\<close>

definition mask_z :: "mat34 \<Rightarrow> point list \<Rightarrow> bool list" where
  "mask_z Tr points = map (\<lambda>p. 0 < cam_z Tr p) points"

definition divided_points :: "mat34 \<Rightarrow> mat34 \<Rightarrow> point list \<Rightarrow> pixel list" where
  "divided_points Tr P2 points =
     map (\<lambda>c. perspective_divide (to_image_raw P2 c))
       (map fst (filter snd (zip (map (to_camera Tr) points) (mask_z Tr points))))"

definition project_to_front_view ::
  "point list \<Rightarrow> label list \<Rightarrow> mat34 \<Rightarrow> mat34 \<Rightarrow>
     error + (point list \<times> pixel list \<times> label list)" where
  "project_to_front_view points labels Tr P2 =
     bind_res (bool_index points (mask_z Tr points)) (\<lambda>points_after_z.
     bind_res (bool_index labels (mask_z Tr points)) (\<lambda>labels_after_z.
       let points_img = divided_points Tr P2 points;
           mask_img = map in_image points_img
       in bind_res (bool_index points_after_z mask_img) (\<lambda>points_front.
          bind_res (bool_index points_img mask_img) (\<lambda>points_img'.
          bind_res (bool_index labels_after_z mask_img) (\<lambda>labels_front.
            Inr (points_front, points_img', labels_front))))))"

section \<open>Labels and class names\<close>

text \<open>The SemanticKITTI label table of the statistics scripts.\<close>

definition label_to_name :: "(label \<times> string) list" where
  "label_to_name =
     [(0, ''unlabeled''), (1, ''outlier''), (10, ''car''), (11, ''bicycle''), (13, ''bus''),
      (15, ''motorcycle''), (16, ''on-rails''), (18, ''truck''), (20, ''other-vehicle''),
      (30, ''person''), (31, ''bicyclist''), (32, ''motorcyclist''), (40, ''road''),
      (44, ''parking''), (48, ''sidewalk''), (49, ''other-ground''), (50, ''building''),
      (51, ''fence''), (52, ''vegetation''), (60, ''trunk''), (61, ''terrain''), (70, ''pole''),
      (71, ''traffic-sign''), (80, ''other-object''), (252, ''moving-car''),
      (253, ''moving-bicyclist''), (254, ''moving-person''), (255, ''moving-motorcyclist''),
      (256, ''moving-on-rails''), (257, ''moving-bus''), (258, ''moving-truck''),
      (259, ''moving-other-vehicle'')]"

text \<open>\<open>d.get(k, default)\<close> on a dictionary held as an association list.\<close>

definition dict_get :: "('k \<times> 'v) list \<Rightarrow> 'k \<Rightarrow> 'v \<Rightarrow> 'v" where
  "dict_get d k dflt = (case map_of d k of None \<Rightarrow> dflt | Some v \<Rightarrow> v)"

text \<open>
  \<open>d[k] = v\<close>: an existing key keeps its place and takes the new value, a new key goes
  to the end. A dictionary comprehension stores its items from left to right.
\<close>

fun dict_set :: "('k \<times> 'v) list \<Rightarrow> 'k \<Rightarrow> 'v \<Rightarrow> ('k \<times> 'v) list" where
  "dict_set [] k v = [(k, v)]"
| "dict_set ((k', v') # d) k v =
     (if k' = k then (k', v) # d else (k', v') # dict_set d k v)"

definition dict_comp :: "('a \<Rightarrow> 'k \<times> 'v) \<Rightarrow> 'a list \<Rightarrow> ('k \<times> 'v) list" where
  "dict_comp f xs = foldl (\<lambda>d x. dict_set d (fst (f x)) (snd (f x))) [] xs"

text \<open>The decimal digits of a number, as \<open>str\<close> and an f-string print it.\<close>

definition digit_char :: "nat \<Rightarrow> char" where
  "digit_char d = char_of (48 + d)"

fun str_nat :: "nat \<Rightarrow> string" where
  "str_nat n = (if n < 10 then [digit_char n] else str_nat (n div 10) @ [digit_char (n mod 10)])"

declare str_nat.simps [simp del]

definition class_name_of :: "label \<Rightarrow> string" where
  \<comment> \<open>\<open>label_to_name.get(label, f"unknown_{label}")\<close>\<close>
  "class_name_of l = dict_get label_to_name l (''unknown_'' @ str_nat (unat l))"

definition instance_class_name :: "label \<Rightarrow> string" where
  \<comment> \<open>\<open>label_to_name.get(inst_semantic, "unknown")\<close>\<close>
  "instance_class_name l = dict_get label_to_name l ''unknown''"

section \<open>Per-frame statistics\<close>

text \<open>\<open>np.unique(a, return_counts=True)\<close>, zipped: the sorted distinct values with their counts.\<close>

definition np_unique :: "label list \<Rightarrow> label list" where
  "np_unique xs = sort (remdups xs)"

definition np_unique_counts :: "label list \<Rightarrow> (label \<times> nat) list" where
  "np_unique_counts xs = map (\<lambda>u. (u, count_list xs u)) (np_unique xs)"

definition semantic_of :: "label list \<Rightarrow> label list" where
  "semantic_of front_labels = map (\<lambda>l. l AND 0xFFFF) front_labels"

definition instance_ids_of :: "label list \<Rightarrow> label list" where
  "instance_ids_of front_labels = map (drop_bit 16) front_labels"

definition total_points_of :: "label list \<Rightarrow> nat" where
  "total_points_of semantic_labels =
     (if 0 < length semantic_labels then length semantic_labels else 1)"

definition class_percentages_of :: "label list \<Rightarrow> (label \<times> npfloat) list" where
  "class_percentages_of semantic_labels =
     dict_comp (\<lambda>(l, c). (l, np_mul (np_truediv (Fin (real c))
                                        (Fin (real (total_points_of semantic_labels))))
                                 (Fin 100)))
       (np_unique_counts semantic_labels)"

definition class_percentages_named_of :: "label list \<Rightarrow> (string \<times> npfloat) list" where
  "class_percentages_named_of semantic_labels =
     dict_comp (\<lambda>(l, percent). (class_name_of l, percent))
       (class_percentages_of semantic_labels)"

definition get_spatial_location :: "npfloat \<Rightarrow> npfloat \<Rightarrow> string" where
  "get_spatial_location x y =
     (let x_loc = (if np_lt x (Fin (1242 / 3)) then ''left''
                   else if np_lt x (Fin (2 * 1242 / 3)) then ''center'' else ''right'');
          y_loc = (if np_lt y (Fin (375 / 3)) then ''top''
                   else if np_lt y (Fin (2 * 375 / 3)) then ''middle'' else ''bottom'')
      in y_loc @ ''-'' @ x_loc)"

definition np_linalg_norm :: "point \<Rightarrow> real" where
  "np_linalg_norm p = (case p of (x, y, z) \<Rightarrow> sqrt (x * x + y * y + z * z))"

definition np_min :: "real list \<Rightarrow> error + real" where
  "np_min xs = (case xs of [] \<Rightarrow> Inl ValueError | x # rest \<Rightarrow> Inr (foldl min x rest))"

record instance_entry =
  inst_class :: string
  inst_id :: nat
  spatial_location :: string
  distance :: real

text \<open>
  The body of the loop \<open>for inst_id in np.unique(instance_ids)\<close>: the entries it
  appends to \<open>instances\<close> (none or one).
\<close>

definition instance_step ::
  "point list \<Rightarrow> pixel list \<Rightarrow> label list \<Rightarrow> label list \<Rightarrow> label \<Rightarrow>
     error + instance_entry list" where
  "instance_step points_front points_img semantic_labels instance_ids i =
     (if i = 0 then Inr []
      else
        let flags = map (\<lambda>j. j = i) instance_ids
        in bind_res (bool_index semantic_labels flags) (\<lambda>sems.
           bind_res (case sems of [] \<Rightarrow> Inl IndexError | s # _ \<Rightarrow> Inr s) (\<lambda>inst_semantic.
           bind_res (bool_index points_img flags) (\<lambda>inst_points_img.
           bind_res (bool_index points_front flags) (\<lambda>inst_points_3d.
             if 0 < length inst_points_img then
               let mean_x = np_mean (map fst inst_points_img);
                   mean_y = np_mean (map snd inst_points_img);
                   spatial_loc = get_spatial_location mean_x mean_y
               in bind_res (np_min (map np_linalg_norm inst_points_3d)) (\<lambda>min_distance.
                    Inr [\<lparr>inst_class = instance_class_name inst_semantic,
                          inst_id = unat i,
                          spatial_location = spatial_loc,
                          distance = min_distance\<rparr>])
             else Inr [])))))"

fun instance_loop ::
  "point list \<Rightarrow> pixel list \<Rightarrow> label list \<Rightarrow> label list \<Rightarrow> label list \<Rightarrow>
     instance_entry list \<Rightarrow> error + instance_entry list" where
  "instance_loop pf pim sem ids [] acc = Inr acc"
| "instance_loop pf pim sem ids (i # rest) acc =
     bind_res (instance_step pf pim sem ids i) (\<lambda>new.
       instance_loop pf pim sem ids rest (acc @ new))"

definition identify_instances ::
  "point list \<Rightarrow> pixel list \<Rightarrow> label list \<Rightarrow> error + instance_entry list" where
  "identify_instances points_front points_img front_labels =
     instance_loop points_front points_img (semantic_of front_labels)
       (instance_ids_of front_labels) (np_unique (instance_ids_of front_labels)) []"

definition count_class :: "string list \<Rightarrow> instance_entry list \<Rightarrow> nat" where
  "count_class names insts = length (filter (\<lambda>inst. inst_class inst \<in> set names) insts)"

section \<open>Ego motion\<close>

definition translation :: "mat34 \<Rightarrow> point" where
  \<comment> \<open>\<open>pose[:3, 3]\<close>\<close>
  "translation pose = (case pose of ((a0, a1, a2, a3), (b0, b1, b2, b3), (c0, c1, c2, c3)) \<Rightarrow>
                         (a3, b3, c3))"

definition vec_sub :: "point \<Rightarrow> point \<Rightarrow> point" where
  "vec_sub p q = (case p of (x, y, z) \<Rightarrow> case q of (x', y', z') \<Rightarrow> (x - x', y - y', z - z'))"

text \<open>
  The ego-motion block of \<open>process_sequence\<close>. \<open>prev\<close> holds \<open>prev_pose\<close> and
  \<open>prev_time\<close>, which the loop sets together (\<open>None\<close> before the first frame). The
  result is the frame's speed and acceleration and the updated \<open>total_distance\<close>.
\<close>

definition ego_motion ::
  "(mat34 \<times> real) option \<Rightarrow> npfloat \<Rightarrow> real \<Rightarrow> mat34 \<Rightarrow> real \<Rightarrow> npfloat \<times> npfloat \<times> real" where
  "ego_motion prev prev_speed total_distance current_pose current_time =
     (case prev of
        Some (prev_pose, prev_time) \<Rightarrow>
          let displacement = np_linalg_norm (vec_sub (translation current_pose) (translation prev_pose));
              time_diff = current_time - prev_time;
              speed = (if 0 < time_diff then np_truediv (Fin displacement) (Fin time_diff) else Fin 0);
              acceleration = (if 0 < time_diff
                              then np_truediv (np_sub speed prev_speed) (Fin time_diff) else Fin 0)
          in (speed, acceleration, total_distance + displacement)
      | None \<Rightarrow> (Fin 0, Fin 0, total_distance))"

section \<open>Processing a sequence\<close>

text \<open>
  What the loaders read for one sequence directory. \<open>None\<close> stands for a file that
  is missing or malformed: the loader raises. Frame files are looked up by frame number.
  The heading (\<open>direction\<close>) of a frame is a function of the pose alone that nothing
  else reads; the model leaves it out, as it leaves out the JSON encoding.
\<close>

record sequence_files =
  calib_txt :: "(mat34 \<times> mat34) option"
  poses_txt :: "mat34 list option"
  times_txt :: "real list option"
  frame_files :: "nat \<Rightarrow> (point list \<times> label list) option"

definition load_calib :: "sequence_files \<Rightarrow> error + (mat34 \<times> mat34)" where
  "load_calib sf = (case calib_txt sf of None \<Rightarrow> Inl FileNotFoundError | Some c \<Rightarrow> Inr c)"

definition load_poses :: "sequence_files \<Rightarrow> error + mat34 list" where
  "load_poses sf = (case poses_txt sf of None \<Rightarrow> Inl FileNotFoundError | Some ps \<Rightarrow> Inr ps)"

definition load_times :: "sequence_files \<Rightarrow> error + real list" where
  "load_times sf = (case times_txt sf of None \<Rightarrow> Inl FileNotFoundError | Some ts \<Rightarrow> Inr ts)"

definition load_frame_data :: "sequence_files \<Rightarrow> nat \<Rightarrow> error + (point list \<times> label list)" where
  "load_frame_data sf n =
     (case frame_files sf n of None \<Rightarrow> Inl FileNotFoundError | Some fr \<Rightarrow> Inr fr)"

definition list_get :: "'a list \<Rightarrow> nat \<Rightarrow> error + 'a" where
  "list_get xs i = (if i < length xs then Inr (xs ! i) else Inl IndexError)"

record frame_summary =
  frame_id :: nat
  timestamp :: real
  class_percentages :: "(string \<times> npfloat) list"
  unique_classes :: "string list"
  instances :: "instance_entry list"
  num_cars :: nat
  num_persons :: nat
  ego_speed :: npfloat
  ego_acceleration :: npfloat

record object_counts =
  oc_timestamp :: real
  car_count :: nat
  person_count :: nat

text \<open>The accumulators of the frame loop.\<close>

record accum =
  frame_summaries :: "frame_summary list"
  total_distance :: real
  speeds :: "npfloat list"
  class_percentages_list :: "(string \<times> npfloat) list list"
  object_counts_list :: "object_counts list"
  prev :: "(mat34 \<times> real) option"
  prev_speed :: npfloat

definition init_accum :: accum where
  "init_accum = \<lparr>frame_summaries = [], total_distance = 0, speeds = [],
                  class_percentages_list = [], object_counts_list = [],
                  prev = None, prev_speed = Fin 0\<rparr>"

text \<open>One iteration of \<open>for frame_id in range(len(poses))\<close>.\<close>

definition process_frame ::
  "sequence_files \<Rightarrow> mat34 \<Rightarrow> mat34 \<Rightarrow> mat34 list \<Rightarrow> real list \<Rightarrow> accum \<Rightarrow> nat \<Rightarrow> error + accum" where
  "process_frame sf Tr P2 poses timestamps acc n =
     bind_res (load_frame_data sf n) (\<lambda>(points, labels).
     bind_res (project_to_front_view points labels Tr P2) (\<lambda>(points_front, points_img, front_labels).
       let semantic_labels = semantic_of front_labels;
           class_percentages_named = class_percentages_named_of semantic_labels;
           classes = map fst class_percentages_named
       in bind_res (identify_instances points_front points_img front_labels) (\<lambda>insts.
            let cars = count_class [''car'', ''moving-car''] insts;
                persons = count_class [''person'', ''moving-person''] insts
            in bind_res (list_get poses n) (\<lambda>current_pose.
               bind_res (list_get timestamps n) (\<lambda>current_time.
                 case ego_motion (prev acc) (prev_speed acc) (total_distance acc)
                        current_pose current_time of
                   (speed, acceleration, total_distance') \<Rightarrow>
                     Inr \<lparr>frame_summaries = frame_summaries acc @
                            [\<lparr>frame_id = n, timestamp = current_time,
                              class_percentages = class_percentages_named,
                              unique_classes = classes, instances = insts,
                              num_cars = cars, num_persons = persons,
                              ego_speed = speed, ego_acceleration = acceleration\<rparr>],
                          total_distance = total_distance',
                          speeds = speeds acc @ [speed],
                          class_percentages_list =
                            class_percentages_list acc @ [class_percentages_named],
                          object_counts_list = object_counts_list acc @
                            [\<lparr>oc_timestamp = current_time, car_count = cars,
                              person_count = persons\<rparr>],
                          prev = Some (current_pose, current_time),
                          prev_speed = speed\<rparr>)))))"

fun frame_loop ::
  "sequence_files \<Rightarrow> mat34 \<Rightarrow> mat34 \<Rightarrow> mat34 list \<Rightarrow> real list \<Rightarrow> nat list \<Rightarrow> accum \<Rightarrow> error + accum" where
  "frame_loop sf Tr P2 poses timestamps [] acc = Inr acc"
| "frame_loop sf Tr P2 poses timestamps (n # ns) acc =
     bind_res (process_frame sf Tr P2 poses timestamps acc n) (frame_loop sf Tr P2 poses timestamps ns)"

text \<open>Python's \<open>min\<close> and \<open>max\<close> of a non-empty list: the first extremal item.\<close>

fun py_min :: "npfloat \<Rightarrow> npfloat list \<Rightarrow> npfloat" where
  "py_min m [] = m"
| "py_min m (x # xs) = py_min (if np_lt x m then x else m) xs"

fun py_max :: "npfloat \<Rightarrow> npfloat list \<Rightarrow> npfloat" where
  "py_max m [] = m"
| "py_max m (x # xs) = py_max (if np_gt x m then x else m) xs"

definition min_or_zero :: "npfloat list \<Rightarrow> npfloat" where
  \<comment> \<open>\<open>min(speeds) if speeds else 0\<close>\<close>
  "min_or_zero xs = (case xs of [] \<Rightarrow> Fin 0 | x # rest \<Rightarrow> py_min x rest)"

definition max_or_zero :: "npfloat list \<Rightarrow> npfloat" where
  "max_or_zero xs = (case xs of [] \<Rightarrow> Fin 0 | x # rest \<Rightarrow> py_max x rest)"

text \<open>
  \<open>all_classes\<close> is a Python set and \<open>average_class_percentages\<close> a dictionary filled
  while iterating over it, in an order Python does not fix: they are a set and a map.
\<close>

definition all_classes_of :: "(string \<times> npfloat) list list \<Rightarrow> string set" where
  "all_classes_of cpl = foldl (\<lambda>s cp. s \<union> set (map fst cp)) {} cpl"

definition average_class_percentages_of ::
  "(string \<times> npfloat) list list \<Rightarrow> string \<rightharpoonup> npfloat" where
  "average_class_percentages_of cpl cls =
     (if cls \<in> all_classes_of cpl
      then Some (np_mean (map (\<lambda>cp. dict_get cp cls (Fin 0)) cpl)) else None)"

record time_point =
  tp_timestamp :: real
  tp_class_percentages :: "(string \<times> npfloat) list"
  tp_car_count :: nat
  tp_person_count :: nat

fun map_res :: "('a \<Rightarrow> error + 'b) \<Rightarrow> 'a list \<Rightarrow> error + 'b list" where
  "map_res f [] = Inr []"
| "map_res f (x # xs) = bind_res (f x) (\<lambda>y. bind_res (map_res f xs) (\<lambda>ys. Inr (y # ys)))"

definition time_series_of ::
  "real list \<Rightarrow> (string \<times> npfloat) list list \<Rightarrow> object_counts list \<Rightarrow> error + time_point list" where
  "time_series_of timestamps cpl ocl =
     map_res (\<lambda>i. bind_res (list_get timestamps i) (\<lambda>t.
                  bind_res (list_get cpl i) (\<lambda>cp.
                  bind_res (list_get ocl i) (\<lambda>oc.
                    Inr \<lparr>tp_timestamp = t, tp_class_percentages = cp,
                         tp_car_count = car_count oc, tp_person_count = person_count oc\<rparr>))))
       [0..<length timestamps]"

record sequence_summary =
  total_frames :: nat
  total_duration :: real
  summary_total_distance :: real
  average_speed :: npfloat
  min_speed :: npfloat
  max_speed :: npfloat
  average_speed_from_frames :: npfloat
  average_class_percentages :: "string \<rightharpoonup> npfloat"
  total_unique_classes :: "string set"
  time_series :: "time_point list"

definition summarize :: "mat34 list \<Rightarrow> real list \<Rightarrow> accum \<Rightarrow> error + sequence_summary" where
  "summarize poses timestamps acc =
     (let duration = (if 1 < length timestamps then last timestamps - hd timestamps else 0);
          avg_speed = (if 0 < duration
                       then np_truediv (Fin (total_distance acc)) (Fin duration) else Fin 0);
          avg_speed_frames = (if speeds acc \<noteq> [] then np_mean (speeds acc) else Fin 0)
      in bind_res (time_series_of timestamps (class_percentages_list acc) (object_counts_list acc))
           (\<lambda>ts. Inr \<lparr>total_frames = length poses,
                       total_duration = duration,
                       summary_total_distance = total_distance acc,
                       average_speed = avg_speed,
                       min_speed = min_or_zero (speeds acc),
                       max_speed = max_or_zero (speeds acc),
                       average_speed_from_frames = avg_speed_frames,
                       average_class_percentages =
                         average_class_percentages_of (class_percentages_list acc),
                       total_unique_classes = all_classes_of (class_percentages_list acc),
                       time_series = ts\<rparr>))"

text \<open>
  \<open>process_sequence\<close> up to the point where it opens its output files: the contents
  of \<open>frame_summaries.json\<close> and \<open>sequence_summary.json\<close>, or the exception raised.
\<close>

definition process_sequence ::
  "sequence_files \<Rightarrow> error + (frame_summary list \<times> sequence_summary)" where
  "process_sequence sf =
     bind_res (load_calib sf) (\<lambda>(Tr, P2).
     bind_res (load_poses sf) (\<lambda>poses.
     bind_res (load_times sf) (\<lambda>timestamps.
     bind_res (frame_loop sf Tr P2 poses timestamps [0..<length poses] init_accum) (\<lambda>acc.
     bind_res (summarize poses timestamps acc) (\<lambda>summary.
       Inr (frame_summaries acc, summary))))))"

section \<open>The batch driver\<close>

text \<open>
  \<open>process_all_sequences\<close> visits the sequences 0 to 10. The dataset maps a sequence
  number to its directory (\<open>None\<close>: the directory does not exist); the state is the
  output files under \<open>stats/\<close>, by sequence number, and the lines printed.
\<close>

datatype log_line =
    Skipping nat
  | Processing nat
  | Generated nat
  | ErrorProcessing nat error

record outputs =
  stats_files :: "nat \<rightharpoonup> (frame_summary list \<times> sequence_summary)"
  printed :: "log_line list"

definition process_one :: "(nat \<rightharpoonup> sequence_files) \<Rightarrow> outputs \<Rightarrow> nat \<Rightarrow> outputs" where
  "process_one dataset out seq_id =
     (case dataset seq_id of
        None \<Rightarrow> out\<lparr>printed := printed out @ [Skipping seq_id]\<rparr>
      | Some sf \<Rightarrow>
          (case process_sequence sf of
             Inr res \<Rightarrow>
               out\<lparr>stats_files := (stats_files out)(seq_id \<mapsto> res),
                   printed := printed out @ [Processing seq_id, Generated seq_id]\<rparr>
           | Inl e \<Rightarrow>
               out\<lparr>printed := printed out @ [Processing seq_id, ErrorProcessing seq_id e]\<rparr>))"

definition process_all_sequences :: "(nat \<rightharpoonup> sequence_files) \<Rightarrow> outputs \<Rightarrow> outputs" where
  "process_all_sequences dataset out = foldl (process_one dataset) out [0..<11]"

section \<open>Specification-level views\<close>

text \<open>
  The rows that survive the two masks of \<open>project_to_front_view\<close>, as pairs of a
  point and its label: first the front-hemisphere mask, then the image mask.
\<close>

definition z_kept :: "mat34 \<Rightarrow> point list \<Rightarrow> label list \<Rightarrow> (point \<times> label) list" where
  "z_kept Tr points labels = filter (\<lambda>pl. 0 < cam_z Tr (fst pl)) (zip points labels)"

definition front_kept :: "mat34 \<Rightarrow> mat34 \<Rightarrow> point list \<Rightarrow> label list \<Rightarrow> (point \<times> label) list" where
  "front_kept Tr P2 points labels =
     filter (\<lambda>pl. in_image (project_point Tr P2 (fst pl))) (z_kept Tr points labels)"


text \<open>
  The invariant of the frame loop: the speeds recorded so far are those of the frame
  summaries, all of them finite and non-negative, the first of them 0; the accelerations
  are finite; the percentage maps recorded are those of the frame summaries.
\<close>

definition speeds_ok :: "accum \<Rightarrow> bool" where
  "speeds_ok acc \<longleftrightarrow>
     (\<exists>s. prev_speed acc = Fin s \<and> 0 \<le> s)
     \<and> (\<forall>x \<in> set (speeds acc). \<exists>s. x = Fin s \<and> 0 \<le> s)
     \<and> (speeds acc = [] \<longrightarrow> prev acc = None)
     \<and> (speeds acc \<noteq> [] \<longrightarrow> hd (speeds acc) = Fin 0)
     \<and> (\<forall>f \<in> set (frame_summaries acc). is_finite (ego_acceleration f))
     \<and> speeds acc = map ego_speed (frame_summaries acc)
     \<and> class_percentages_list acc = map class_percentages (frame_summaries acc)"

text \<open>The share of a semantic id among the labels of a frame, in percent.\<close>

definition percent_of :: "label list \<Rightarrow> label \<Rightarrow> real" where
  "percent_of semantic_labels l =
     real (count_list semantic_labels l) / real (length semantic_labels) * 100"

text \<open>
  A sequence of two frames, used to run the model: the vehicle moves 2 m along x in 1 s;
  the first frame has a car point (instance 10) in view and a road point behind the
  camera, the second a road point in view.
\<close>

definition example_frames :: "nat \<Rightarrow> (point list \<times> label list) option" where
  "example_frames n =
     (if n = 0 then Some ([(1, 2, 1), (0, 0, -1)], [655370, 40])
      else if n = 1 then Some ([(3, 4, 2)], [40])
      else None)"

definition example_sequence :: sequence_files where
  "example_sequence =
     \<lparr>calib_txt = Some (((1, 0, 0, 0), (0, 1, 0, 0), (0, 0, 1, 0)),
                        ((1, 0, 0, 0), (0, 1, 0, 0), (0, 0, 1, 0))),
      poses_txt = Some [((1, 0, 0, 0), (0, 1, 0, 0), (0, 0, 1, 0)),
                        ((1, 0, 0, 2), (0, 1, 0, 0), (0, 0, 1, 0))],
      times_txt = Some [0, 1],
      frame_files = example_frames\<rparr>"

text \<open>
  The example sequence with a first frame of two points and one label, and a dataset in
  which only the directories 03 (that sequence) and 04 (the example sequence) exist.
\<close>

definition mismatched_sequence :: sequence_files where
  "mismatched_sequence =
     example_sequence\<lparr>frame_files :=
       (\<lambda>n. if n = 0 then Some ([(1, 2, 1), (0, 0, -1)], [655370]) else example_frames n)\<rparr>"

definition example_dataset :: "nat \<rightharpoonup> sequence_files" where
  "example_dataset = [3 \<mapsto> mismatched_sequence, 4 \<mapsto> example_sequence]"

definition no_outputs :: outputs where
  "no_outputs = \<lparr>stats_files = Map.empty, printed = []\<rparr>"

text \<open>
  The example sequence with a first frame of no point and one label, and a dataset in
  which only the directory 03, holding that sequence, exists.
\<close>

definition empty_points_sequence :: sequence_files where
  "empty_points_sequence =
     example_sequence\<lparr>frame_files :=
       (\<lambda>n. if n = 0 then Some ([], [655370]) else example_frames n)\<rparr>"

definition empty_points_dataset :: "nat \<rightharpoonup> sequence_files" where
  "empty_points_dataset = [3 \<mapsto> empty_points_sequence]"

text \<open>
  What a run of the driver writes for a sequence number: the result of its sequence when
  the directory exists and \<open>process_sequence\<close> returns, and nothing otherwise.
\<close>

definition written :: "(nat \<rightharpoonup> sequence_files) \<Rightarrow> nat \<Rightarrow> (frame_summary list \<times> sequence_summary) option" where
  "written dataset s =
     (case dataset s of
        None \<Rightarrow> None
      | Some sf \<Rightarrow> (case process_sequence sf of Inr res \<Rightarrow> Some res | Inl e \<Rightarrow> None))"

text \<open>
  The sequence aggregation in the words of the specification: a frame's percentage for a
  class is the value stored under the class name, and 0 when the class is absent from
  the frame; the average of a class is the mean of these over all frames.
\<close>

definition frame_percent :: "(string \<times> npfloat) list \<Rightarrow> string \<Rightarrow> real" where
  "frame_percent cp cls = (case map_of cp cls of Some (Fin r) \<Rightarrow> r | _ \<Rightarrow> 0)"

definition spec_average_class_percentage :: "(string \<times> npfloat) list list \<Rightarrow> string \<Rightarrow> real" where
  "spec_average_class_percentage cpl cls =
     (\<Sum>cp\<leftarrow>cpl. frame_percent cp cls) / real (length cpl)"

text \<open>A percentage map all of whose values are finite.\<close>

definition percentages_finite :: "(string \<times> npfloat) list \<Rightarrow> bool" where
  "percentages_finite cp \<longleftrightarrow> (\<forall>kv \<in> set cp. is_finite (snd kv))"

text \<open>
  The rows of an array that belong to one instance: those whose label carries the
  instance id \<open>i\<close> in its high 16 bits. The entry of an instance, stated directly:
  the class name of its first point, its id, the bucket of its mean pixel and the least
  Euclidean norm of its points.
\<close>

definition members :: "'a list \<Rightarrow> label list \<Rightarrow> label \<Rightarrow> 'a list" where
  "members xs front_labels i =
     map fst (filter (\<lambda>xl. drop_bit 16 (snd xl) = i) (zip xs front_labels))"

definition instance_of ::
  "point list \<Rightarrow> pixel list \<Rightarrow> label list \<Rightarrow> label \<Rightarrow> instance_entry" where
  "instance_of points_front points_img front_labels i =
     \<lparr>inst_class = instance_class_name (hd (members (semantic_of front_labels) front_labels i)),
      inst_id = unat i,
      spatial_location =
        get_spatial_location (np_mean (map fst (members points_img front_labels i)))
          (np_mean (map snd (members points_img front_labels i))),
      distance = Min (set (map np_linalg_norm (members points_front front_labels i)))\<rparr>"

section \<open>The projection\<close>

lemma bind_res_simps [simp]:
  "bind_res (Inl e) f = Inl e" "bind_res (Inr v) f = f v"
  by (simp_all add: bind_res_def)

lemma filter_snd_zip_maps:
  "map fst (filter snd (zip (map f zs) (map Q zs))) = map f (filter Q zs)"
  by (induction zs) auto

text \<open>
  The arrays \<open>project_to_front_view\<close> accepts: as many labels as points, or no points
  (the mask is then empty and selects nothing from the labels, however many there are).
\<close>

lemma bool_index_mask_z:
  assumes "length labels = length points \<or> points = []"
  shows "bool_index points (mask_z Tr points) = Inr (map fst (z_kept Tr points labels))"
    and "bool_index labels (mask_z Tr points) = Inr (map snd (z_kept Tr points labels))"
proof -
  have "bool_index points (mask_z Tr points) = Inr (map fst (z_kept Tr points labels))
      \<and> bool_index labels (mask_z Tr points) = Inr (map snd (z_kept Tr points labels))"
  proof (cases "points = []")
    case True
    then show ?thesis
      by (simp add: bool_index_def mask_z_def z_kept_def)
  next
    case False
    with assms have "length labels = length points" by simp
    then show ?thesis
      unfolding bool_index_def mask_z_def z_kept_def
      by (induction labels points rule: list_induct2) auto
  qed
  then show "bool_index points (mask_z Tr points) = Inr (map fst (z_kept Tr points labels))"
    and "bool_index labels (mask_z Tr points) = Inr (map snd (z_kept Tr points labels))"
    by simp_all
qed

lemma divided_points_eq:
  assumes "length labels = length points \<or> points = []"
  shows "divided_points Tr P2 points =
           map (\<lambda>pl. project_point Tr P2 (fst pl)) (z_kept Tr points labels)"
proof (cases "points = []")
  case True
  then show ?thesis
    by (simp add: divided_points_def mask_z_def z_kept_def)
next
  case False
  with assms have "length labels = length points" by simp
  then show ?thesis
    unfolding divided_points_def mask_z_def z_kept_def project_point_def
    by (induction labels points rule: list_induct2) auto
qed

lemma project_to_front_view_eq:
  assumes "length labels = length points \<or> points = []"
  shows "project_to_front_view points labels Tr P2 =
     Inr (map fst (front_kept Tr P2 points labels),
          map (\<lambda>pl. project_point Tr P2 (fst pl)) (front_kept Tr P2 points labels),
          map snd (front_kept Tr P2 points labels))"
proof -
  let ?Z = "z_kept Tr points labels"
  let ?pix = "\<lambda>pl :: point \<times> label. project_point Tr P2 (fst pl)"
  let ?img = "map ?pix ?Z"
  have dv: "divided_points Tr P2 points = ?img"
    by (rule divided_points_eq [OF assms])
  have msk: "map in_image ?img = map (\<lambda>pl. in_image (?pix pl)) ?Z"
    by simp
  have sel: "bool_index (map f ?Z) (map in_image ?img) = Inr (map f (front_kept Tr P2 points labels))"
    for f :: "point \<times> label \<Rightarrow> 'c"
    unfolding bool_index_def front_kept_def msk filter_snd_zip_maps by simp
  show ?thesis
    unfolding project_to_front_view_def
    by (simp only: bool_index_mask_z [OF assms] dv sel Let_def bind_res_simps)
qed

lemma project_to_front_view_mismatch:
  "length labels \<noteq> length points \<Longrightarrow> points \<noteq> [] \<Longrightarrow>
     project_to_front_view points labels Tr P2 = Inl IndexError"
  by (simp add: project_to_front_view_def bool_index_def mask_z_def)

lemma project_to_front_view_no_points:
  "project_to_front_view [] labels Tr P2 = Inr ([], [], [])"
  by (simp add: project_to_front_view_def bool_index_def mask_z_def divided_points_def)


lemma in_image_finite:
  "in_image (u, v) = (\<exists>a b. u = Fin a \<and> v = Fin b \<and> 0 \<le> a \<and> a < 1242 \<and> 0 \<le> b \<and> b < 375)"
  by (cases u; cases v) (auto simp: in_image_def)

lemma z_kept_fst:
  assumes "length labels = length points \<or> points = []"
  shows "map fst (z_kept Tr points labels) = filter (\<lambda>p. 0 < cam_z Tr p) points"
proof (cases "points = []")
  case True
  then show ?thesis by (simp add: z_kept_def)
next
  case False
  with assms have "length labels = length points" by simp
  then show ?thesis
    unfolding z_kept_def by (induction labels points rule: list_induct2) auto
qed

lemma front_kept_fst:
  assumes "length labels = length points \<or> points = []"
  shows "map fst (front_kept Tr P2 points labels) =
           filter (\<lambda>p. 0 < cam_z Tr p \<and> in_image (project_point Tr P2 p)) points"
proof (cases "points = []")
  case True
  then show ?thesis by (simp add: front_kept_def z_kept_def)
next
  case False
  with assms have "length labels = length points" by simp
  then show ?thesis
    unfolding front_kept_def z_kept_def by (induction labels points rule: list_induct2) auto
qed

lemma project_to_front_view_lengths:
  assumes "project_to_front_view points labels Tr P2 = Inr r"
  shows "length labels = length points \<or> points = []"
proof (rule ccontr)
  assume "\<not> (length labels = length points \<or> points = [])"
  then have "project_to_front_view points labels Tr P2 = Inl IndexError"
    by (intro project_to_front_view_mismatch) simp_all
  with assms show False by simp
qed

lemma w_zero_not_in_image:
  "proj_w Tr P2 p = 0 \<Longrightarrow> \<not> in_image (project_point Tr P2 p)"
  by (auto simp: proj_w_def project_point_def perspective_divide_def in_image_def
           split: prod.splits)

lemma divided_points_of_front_points:
  assumes len: "length (labels :: label list) = length points \<or> points = []"
  shows "divided_points Tr P2 points =
           map (project_point Tr P2) (filter (\<lambda>p. 0 < cam_z Tr p) points)"
    using divided_points_eq [OF len, of Tr P2] z_kept_fst [OF len, of Tr]
    by (metis (no_types, lifting) map_map comp_def map_eq_conv)

text \<open>
  Claim C1. Whatever the points, labels and calibration matrices, every point the
  projection returns has a camera-frame z above 0, so no input point whose camera-frame
  z is at most 0 is in the output. The mask is applied before the division: the divided
  array holds one pixel for each point with z above 0 and for no other, and the pixels
  returned are those of them that lie in the image.
\<close>

theorem front_hemisphere_filter:
  assumes "project_to_front_view points labels Tr P2 = Inr (points_front, points_img, labels_front)"
  shows "(\<forall>p \<in> set points_front. 0 < cam_z Tr p)
       \<and> (\<forall>p \<in> set points. cam_z Tr p \<le> 0 \<longrightarrow> p \<notin> set points_front)
       \<and> divided_points Tr P2 points =
           map (project_point Tr P2) (filter (\<lambda>p. 0 < cam_z Tr p) points)
       \<and> points_img = filter in_image (divided_points Tr P2 points)"
proof -
  have len: "length labels = length points \<or> points = []"
    using assms by (rule project_to_front_view_lengths)
  have pf: "points_front = filter (\<lambda>p. 0 < cam_z Tr p \<and> in_image (project_point Tr P2 p)) points"
    using assms project_to_front_view_eq [OF len, of Tr P2] front_kept_fst [OF len, of Tr P2] by simp
  have dv: "divided_points Tr P2 points =
           map (project_point Tr P2) (filter (\<lambda>p. 0 < cam_z Tr p) points)"
    using divided_points_eq [OF len, of Tr P2] z_kept_fst [OF len, of Tr]
    by (metis (no_types, lifting) map_map comp_def map_eq_conv)
  have pim: "points_img = map (\<lambda>pl. project_point Tr P2 (fst pl)) (front_kept Tr P2 points labels)"
    using assms project_to_front_view_eq [OF len, of Tr P2] by simp
  have "points_img = filter in_image (divided_points Tr P2 points)"
    unfolding pim divided_points_eq [OF len] front_kept_def by (simp add: filter_map comp_def)
  with pf dv show ?thesis by auto
qed


lemma zip3_maps:
  "zip (map f zs) (zip (map g zs) (map h zs)) = map (\<lambda>z. (f z, g z, h z)) zs"
  by (induction zs) simp_all

text \<open>
  Claim C2. Every pixel \<open>(u, v)\<close> the projection returns is finite with
  \<open>0 \<le> u < 1242\<close> and \<open>0 \<le> v < 375\<close>. The three arrays returned have one length
  and are aligned: their rows are the point, its pixel and its label for exactly the
  input rows that pass the front-hemisphere mask and whose pixel lies in the image, so a
  row whose pixel is out of bounds is missing from all three.
\<close>

theorem image_bounds_filter:
  assumes "project_to_front_view points labels Tr P2 = Inr (points_front, points_img, labels_front)"
  shows "(\<forall>q \<in> set points_img. \<exists>u v. q = (Fin u, Fin v) \<and> 0 \<le> u \<and> u < 1242 \<and> 0 \<le> v \<and> v < 375)
       \<and> length points_front = length points_img
       \<and> length labels_front = length points_img
       \<and> zip points_front (zip points_img labels_front) =
           map (\<lambda>pl. (fst pl, project_point Tr P2 (fst pl), snd pl))
             (filter (\<lambda>pl. in_image (project_point Tr P2 (fst pl)))
               (filter (\<lambda>pl. 0 < cam_z Tr (fst pl)) (zip points labels)))"
proof -
  have len: "length labels = length points \<or> points = []"
    using assms by (rule project_to_front_view_lengths)
  let ?K = "front_kept Tr P2 points labels"
  have out: "points_front = map fst ?K"
            "points_img = map (\<lambda>pl. project_point Tr P2 (fst pl)) ?K"
            "labels_front = map snd ?K"
    using assms project_to_front_view_eq [OF len, of Tr P2] by simp_all
  have bounds: "\<exists>u v. q = (Fin u, Fin v) \<and> 0 \<le> u \<and> u < 1242 \<and> 0 \<le> v \<and> v < 375"
    if "q \<in> set points_img" for q
  proof -
    from that have "in_image q"
      unfolding out front_kept_def by auto
    then show ?thesis
      using in_image_finite [of "fst q" "snd q"] by (cases q) auto
  qed
  have "zip points_front (zip points_img labels_front) =
          map (\<lambda>pl. (fst pl, project_point Tr P2 (fst pl), snd pl)) ?K"
    unfolding out by (rule zip3_maps)
  then show ?thesis
    using bounds out unfolding front_kept_def z_kept_def by simp
qed

text \<open>
  Claim C9, as amended. A point that passed the front-hemisphere mask can have a third
  projective coordinate \<open>w = 0\<close>, and the division is carried out for it without a
  guard: its pixel is in the divided array. That pixel is infinite or NaN and fails the
  image mask, so no point with \<open>w = 0\<close> is in the output.
\<close>

theorem no_zero_w_in_output:
  assumes "project_to_front_view points labels Tr P2 = Inr (points_front, points_img, labels_front)"
  shows "(\<forall>p \<in> set points_front. proj_w Tr P2 p \<noteq> 0)
       \<and> (\<forall>p \<in> set points. 0 < cam_z Tr p \<and> proj_w Tr P2 p = 0 \<longrightarrow>
             project_point Tr P2 p \<in> set (divided_points Tr P2 points)
             \<and> \<not> in_image (project_point Tr P2 p) \<and> p \<notin> set points_front)"
proof -
  have len: "length labels = length points \<or> points = []"
    using assms by (rule project_to_front_view_lengths)
  have pf: "points_front = filter (\<lambda>p. 0 < cam_z Tr p \<and> in_image (project_point Tr P2 p)) points"
    using assms project_to_front_view_eq [OF len, of Tr P2] front_kept_fst [OF len, of Tr P2] by simp
  have dv: "set (divided_points Tr P2 points) = project_point Tr P2 ` {p \<in> set points. 0 < cam_z Tr p}"
    using divided_points_of_front_points [OF len, of Tr P2] by auto
  show ?thesis
    using w_zero_not_in_image [of Tr P2] unfolding pf dv by auto
qed


lemmas projection_eval =
  project_to_front_view_def bool_index_def mask_z_def divided_points_def cam_z_def proj_w_def
  to_camera_def homogenize_def dot4_def to_image_raw_def perspective_divide_def project_point_def
  in_image_def Let_def



theorem front_hemisphere_filter_witness:
  "project_to_front_view [(1, 2, 1), (0, 0, -1), (2000, 0, 1), (3, 4, 2)] [655370, 10, 40, 327690]
     ((1, 0, 0, 0), (0, 1, 0, 0), (0, 0, 1, 0)) ((1, 0, 0, 0), (0, 1, 0, 0), (0, 0, 1, 0))
   = Inr ([(1, 2, 1), (3, 4, 2)], [(Fin 1, Fin 2), (Fin (3 / 2), Fin 2)], [655370, 327690])
   \<and> 0 < cam_z ((1, 0, 0, 0), (0, 1, 0, 0), (0, 0, 1, 0)) (1, 2, 1)
   \<and> cam_z ((1, 0, 0, 0), (0, 1, 0, 0), (0, 0, 1, 0)) (0, 0, -1) \<le> 0
   \<and> ((0, 0, -1) :: point) \<in> set [(1, 2, 1), (0, 0, -1), (2000, 0, 1), (3, 4, 2)]
   \<and> ((0, 0, -1) :: point) \<notin> set [(1, 2, 1), (3, 4, 2)]"
proof -
  have h: "project_to_front_view [(1, 2, 1), (0, 0, -1), (2000, 0, 1), (3, 4, 2)] [655370, 10, 40, 327690]
     ((1, 0, 0, 0), (0, 1, 0, 0), (0, 0, 1, 0)) ((1, 0, 0, 0), (0, 1, 0, 0), (0, 0, 1, 0))
   = Inr ([(1, 2, 1), (3, 4, 2)], [(Fin 1, Fin 2), (Fin (3 / 2), Fin 2)], [655370, 327690])"
    by (simp add: projection_eval)
  have a: "0 < cam_z ((1, 0, 0, 0), (0, 1, 0, 0), (0, 0, 1, 0)) (1, 2, 1)"
    using front_hemisphere_filter [OF h, THEN conjunct1] by simp
  have b: "cam_z ((1, 0, 0, 0), (0, 1, 0, 0), (0, 0, 1, 0)) (0, 0, -1) \<le> 0"
    by (simp add: cam_z_def to_camera_def homogenize_def dot4_def)
  have c: "((0, 0, -1) :: point) \<in> set [(1, 2, 1), (0, 0, -1), (2000, 0, 1), (3, 4, 2)]"
    by simp
  have d: "((0, 0, -1) :: point) \<notin> set [(1, 2, 1), (3, 4, 2)]"
    using front_hemisphere_filter [OF h, THEN conjunct2, THEN conjunct1] b c by blast
  show ?thesis
    using h a b c d by (intro conjI)
qed

theorem image_bounds_filter_witness:
  "project_to_front_view [(1, 2, 1), (0, 0, -1), (2000, 0, 1), (3, 4, 2)] [655370, 10, 40, 327690]
     ((1, 0, 0, 0), (0, 1, 0, 0), (0, 0, 1, 0)) ((1, 0, 0, 0), (0, 1, 0, 0), (0, 0, 1, 0))
   = Inr ([(1, 2, 1), (3, 4, 2)], [(Fin 1, Fin 2), (Fin (3 / 2), Fin 2)], [655370, 327690])
   \<and> \<not> in_image (project_point ((1, 0, 0, 0), (0, 1, 0, 0), (0, 0, 1, 0))
                      ((1, 0, 0, 0), (0, 1, 0, 0), (0, 0, 1, 0)) (2000, 0, 1))
   \<and> (\<exists>u v. (Fin (3 / 2), Fin 2) = (Fin u, Fin v) \<and> 0 \<le> u \<and> u < 1242 \<and> 0 \<le> v \<and> v < 375)"
proof -
  have h: "project_to_front_view [(1, 2, 1), (0, 0, -1), (2000, 0, 1), (3, 4, 2)] [655370, 10, 40, 327690]
     ((1, 0, 0, 0), (0, 1, 0, 0), (0, 0, 1, 0)) ((1, 0, 0, 0), (0, 1, 0, 0), (0, 0, 1, 0))
   = Inr ([(1, 2, 1), (3, 4, 2)], [(Fin 1, Fin 2), (Fin (3 / 2), Fin 2)], [655370, 327690])"
    by (simp add: projection_eval)
  have a: "\<not> in_image (project_point ((1, 0, 0, 0), (0, 1, 0, 0), (0, 0, 1, 0))
                      ((1, 0, 0, 0), (0, 1, 0, 0), (0, 0, 1, 0)) (2000, 0, 1))"
    by (simp add: project_point_def to_camera_def homogenize_def dot4_def to_image_raw_def
          perspective_divide_def in_image_def)
  have b: "\<exists>u v. (Fin (3 / 2), Fin 2) = (Fin u, Fin v) \<and> 0 \<le> u \<and> u < 1242 \<and> 0 \<le> v \<and> v < 375"
    using image_bounds_filter [OF h, THEN conjunct1] by simp
  show ?thesis
    using h a b by (intro conjI)
qed

text \<open>
  Claim C9 as stated fails: with the identity as \<open>Tr\<close> and third row \<open>(0, 0, 1, -1)\<close>
  of \<open>P2\<close>, the point \<open>(1, 0, 1)\<close> passes the front-hemisphere mask, has \<open>w = 0\<close>,
  and the division is performed and yields an infinity and a NaN.
\<close>

theorem zero_w_after_z_filter_counterexample:
  "0 < cam_z ((1, 0, 0, 0), (0, 1, 0, 0), (0, 0, 1, 0)) (1, 0, 1)
   \<and> proj_w ((1, 0, 0, 0), (0, 1, 0, 0), (0, 0, 1, 0)) ((1, 0, 0, 0), (0, 1, 0, 0), (0, 0, 1, -1)) (1, 0, 1) = 0
   \<and> divided_points ((1, 0, 0, 0), (0, 1, 0, 0), (0, 0, 1, 0)) ((1, 0, 0, 0), (0, 1, 0, 0), (0, 0, 1, -1))
        [(1, 0, 1)] = [(PosInf, NaN)]"
  by (simp add: divided_points_def mask_z_def cam_z_def proj_w_def
       to_camera_def homogenize_def dot4_def to_image_raw_def perspective_divide_def)

theorem no_zero_w_in_output_witness:
  "project_to_front_view [(1, 0, 1), (1, 2, 3)] [10, 40]
     ((1, 0, 0, 0), (0, 1, 0, 0), (0, 0, 1, 0)) ((1, 0, 0, 0), (0, 1, 0, 0), (0, 0, 1, -1))
   = Inr ([(1, 2, 3)], [(Fin (1 / 2), Fin 1)], [40])
   \<and> 0 < cam_z ((1, 0, 0, 0), (0, 1, 0, 0), (0, 0, 1, 0)) (1, 0, 1)
   \<and> proj_w ((1, 0, 0, 0), (0, 1, 0, 0), (0, 0, 1, 0)) ((1, 0, 0, 0), (0, 1, 0, 0), (0, 0, 1, -1)) (1, 0, 1) = 0
   \<and> ((1, 0, 1) :: point) \<notin> set [(1, 2, 3)]
   \<and> proj_w ((1, 0, 0, 0), (0, 1, 0, 0), (0, 0, 1, 0)) ((1, 0, 0, 0), (0, 1, 0, 0), (0, 0, 1, -1)) (1, 2, 3) \<noteq> 0"
proof -
  have h: "project_to_front_view [(1, 0, 1), (1, 2, 3)] [10, 40]
     ((1, 0, 0, 0), (0, 1, 0, 0), (0, 0, 1, 0)) ((1, 0, 0, 0), (0, 1, 0, 0), (0, 0, 1, -1))
   = Inr ([(1, 2, 3)], [(Fin (1 / 2), Fin 1)], [40])"
    by (simp add: projection_eval)
  have a: "0 < cam_z ((1, 0, 0, 0), (0, 1, 0, 0), (0, 0, 1, 0)) (1, 0, 1)"
    by (simp add: cam_z_def to_camera_def homogenize_def dot4_def)
  have b: "proj_w ((1, 0, 0, 0), (0, 1, 0, 0), (0, 0, 1, 0)) ((1, 0, 0, 0), (0, 1, 0, 0), (0, 0, 1, -1)) (1, 0, 1) = 0"
    by (simp add: proj_w_def to_camera_def homogenize_def dot4_def to_image_raw_def)
  have c: "((1, 0, 1) :: point) \<notin> set [(1, 2, 3)]"
    by simp
  have d: "proj_w ((1, 0, 0, 0), (0, 1, 0, 0), (0, 0, 1, 0)) ((1, 0, 0, 0), (0, 1, 0, 0), (0, 0, 1, -1)) (1, 2, 3) \<noteq> 0"
    using no_zero_w_in_output [OF h, THEN conjunct1] by simp
  show ?thesis
    using h a b c d by (intro conjI)
qed

section \<open>Class names and class percentages\<close>

lemma digit_char_inj: "a < 10 \<Longrightarrow> b < 10 \<Longrightarrow> digit_char a = digit_char b \<Longrightarrow> a = b"
  by (simp add: digit_char_def char_of_eq_iff take_bit_eq_mod)

lemma str_nat_nonempty: "str_nat n \<noteq> []"
  by (subst str_nat.simps) simp

lemma str_nat_last: "last (str_nat n) = digit_char (n mod 10)"
  by (subst str_nat.simps) simp

lemma str_nat_butlast: "butlast (str_nat n) = (if n < 10 then [] else str_nat (n div 10))"
  by (subst str_nat.simps) simp

lemma str_nat_inj: "str_nat n = str_nat m \<Longrightarrow> n = m"
proof (induction n arbitrary: m rule: str_nat.induct)
  case (1 n)
  have d: "n mod 10 = m mod 10"
    using "1.prems" str_nat_last [of n] str_nat_last [of m]
    by (intro digit_char_inj) simp_all
  have b: "butlast (str_nat n) = butlast (str_nat m)"
    using "1.prems" by simp
  show ?case
  proof (cases "n < 10")
    case True
    then have "m < 10"
      using b str_nat_nonempty [of "m div 10"] by (auto simp: str_nat_butlast split: if_splits)
    with True d show ?thesis by simp
  next
    case False
    then have m: "\<not> m < 10"
      using b str_nat_nonempty [of "n div 10"] by (auto simp: str_nat_butlast split: if_splits)
    with False b have "str_nat (n div 10) = str_nat (m div 10)"
      by (simp add: str_nat_butlast)
    with "1.IH" False have "n div 10 = m div 10" by blast
    with d show ?thesis
      by (metis div_mult_mod_eq)
  qed
qed

lemma label_names_distinct: "distinct (map snd label_to_name)"
  by (simp add: label_to_name_def)

lemma label_names_not_unknown: "\<forall>kv \<in> set label_to_name. take 8 (snd kv) \<noteq> ''unknown_''"
  by (simp add: label_to_name_def)

lemma map_of_inj_values:
  "distinct (map snd t) \<Longrightarrow> map_of t a = Some v \<Longrightarrow> map_of t b = Some v \<Longrightarrow> a = b"
proof (induction t)
  case Nil
  then show ?case by simp
next
  case (Cons kv t)
  obtain k w where kv: "kv = (k, w)" by (cases kv)
  have fresh: "map_of t x \<noteq> Some w" for x
  proof
    assume "map_of t x = Some w"
    then have "(x, w) \<in> set t" by (rule map_of_SomeD)
    then have "w \<in> snd ` set t" by force
    with Cons.prems(1) kv show False by simp
  qed
  show ?case
  proof (cases "a = k \<or> b = k")
    case True
    with Cons.prems(2,3) kv fresh show ?thesis
      by (auto split: if_splits)
  next
    case False
    with Cons.prems kv Cons.IH show ?thesis by simp
  qed
qed

lemma class_name_of_inj: "class_name_of a = class_name_of b \<Longrightarrow> a = b"
proof -
  assume eq: "class_name_of a = class_name_of b"
  have known: "take 8 v \<noteq> ''unknown_''" if "map_of label_to_name l = Some v" for l v
    using map_of_SomeD [OF that] label_names_not_unknown by force
  show ?thesis
  proof (cases "map_of label_to_name a")
    case None
    note na = this
    show ?thesis
    proof (cases "map_of label_to_name b")
      case None
      with na eq have "str_nat (unat a) = str_nat (unat b)"
        by (simp add: class_name_of_def dict_get_def)
      then have "unat a = unat b" by (rule str_nat_inj)
      then show ?thesis by (simp add: word_unat_eq_iff)
    next
      case (Some v)
      with na eq known [OF Some] show ?thesis
        by (auto simp add: class_name_of_def dict_get_def)
    qed
  next
    case (Some v)
    note sa = this
    show ?thesis
    proof (cases "map_of label_to_name b")
      case None
      with sa eq known [OF sa] show ?thesis
        by (auto simp add: class_name_of_def dict_get_def)
    next
      case (Some w)
      with sa eq have "v = w"
        by (simp add: class_name_of_def dict_get_def)
      with sa Some show ?thesis
        using map_of_inj_values [OF label_names_distinct] by blast
    qed
  qed
qed


lemma dict_set_fresh: "k \<notin> fst ` set d \<Longrightarrow> dict_set d k v = d @ [(k, v)]"
  by (induction d) auto

lemma foldl_dict_set_distinct:
  "distinct (map fst d @ map (\<lambda>x. fst (f x)) xs) \<Longrightarrow>
     foldl (\<lambda>d x. dict_set d (fst (f x)) (snd (f x))) d xs = d @ map f xs"
proof (induction xs arbitrary: d)
  case Nil
  then show ?case by simp
next
  case (Cons x xs)
  have fresh: "fst (f x) \<notin> fst ` set d"
    using Cons.prems by auto
  have "distinct (map fst (d @ [f x]) @ map (\<lambda>x. fst (f x)) xs)"
    using Cons.prems by auto
  from Cons.IH [OF this] show ?case
    by (simp add: dict_set_fresh [OF fresh])
qed

lemma dict_comp_distinct:
  "distinct (map (\<lambda>x. fst (f x)) xs) \<Longrightarrow> dict_comp f xs = map f xs"
  unfolding dict_comp_def using foldl_dict_set_distinct [of "[]" f xs] by simp

lemma np_unique_distinct: "distinct (np_unique xs)"
  by (simp add: np_unique_def)

lemma np_unique_set: "set (np_unique xs) = set xs"
  by (simp add: np_unique_def)

lemma total_points_of_eq: "xs \<noteq> [] \<Longrightarrow> total_points_of xs = length xs"
  by (simp add: total_points_of_def)

lemma class_percentages_of_eq:
  assumes "xs \<noteq> []"
  shows "class_percentages_of xs = map (\<lambda>l. (l, Fin (percent_of xs l))) (np_unique xs)"
proof -
  have "distinct (map (\<lambda>x. fst ((\<lambda>(l, c). (l, np_mul (np_truediv (Fin (real c))
            (Fin (real (total_points_of xs)))) (Fin 100))) x)) (np_unique_counts xs))"
    using np_unique_distinct [of xs] by (simp add: np_unique_counts_def comp_def)
  from dict_comp_distinct [OF this] show ?thesis
    using assms
    by (simp add: class_percentages_of_def np_unique_counts_def comp_def total_points_of_eq percent_of_def)
qed

lemma class_percentages_named_of_eq:
  assumes "xs \<noteq> []"
  shows "class_percentages_named_of xs =
           map (\<lambda>l. (class_name_of l, Fin (percent_of xs l))) (np_unique xs)"
proof -
  have inj: "inj_on class_name_of (set (np_unique xs))"
    by (rule inj_onI) (rule class_name_of_inj)
  have "distinct (map (\<lambda>x. fst ((\<lambda>(l, percent). (class_name_of l, percent)) x))
           (class_percentages_of xs))"
    using np_unique_distinct [of xs] inj
    by (simp add: class_percentages_of_eq [OF assms] comp_def distinct_map)
  from dict_comp_distinct [OF this] show ?thesis
    by (simp add: class_percentages_named_of_def class_percentages_of_eq [OF assms] comp_def)
qed

lemma class_percentages_named_of_empty: "class_percentages_named_of [] = []"
  by (simp add: class_percentages_named_of_def class_percentages_of_def dict_comp_def
        np_unique_counts_def np_unique_def)

lemma foldl_np_add_Fin: "foldl np_add (Fin a) (map Fin rs) = Fin (a + sum_list rs)"
  by (induction rs arbitrary: a) (simp_all add: add.assoc)

lemma np_sum_Fin: "np_sum (map Fin rs) = Fin (sum_list rs)"
  by (simp add: np_sum_def foldl_np_add_Fin)

lemma sum_counts_unique: "(\<Sum>l\<leftarrow>np_unique xs. count_list xs l) = length xs"
proof -
  have "(\<Sum>l\<leftarrow>np_unique xs. count_list xs l) = sum (count_list xs) (set (np_unique xs))"
    by (rule sum_list_distinct_conv_sum_set [OF np_unique_distinct])
  also have "\<dots> = length xs"
    unfolding np_unique_set by (rule sum_count_set) simp_all
  finally show ?thesis .
qed

lemma sum_list_scaled:
  "(\<Sum>l\<leftarrow>us. real (c l) / n * 100) = real (\<Sum>l\<leftarrow>us. c l) / n * 100"
  by (induction us) (simp_all add: add_divide_distrib distrib_right)

lemma sum_percent_of:
  assumes "xs \<noteq> []"
  shows "(\<Sum>l\<leftarrow>np_unique xs. percent_of xs l) = 100"
proof -
  have "(\<Sum>l\<leftarrow>np_unique xs. percent_of xs l) =
          real (\<Sum>l\<leftarrow>np_unique xs. count_list xs l) / real (length xs) * 100"
    unfolding percent_of_def by (rule sum_list_scaled)
  also have "\<dots> = 100"
    using assms by (simp add: sum_counts_unique)
  finally show ?thesis .
qed

text \<open>
  Claim C7. For a frame with at least one point left after the projection, the values of
  its class-percentage map, as written to the frame summary, add up to exactly 100 in
  exact arithmetic: no two semantic ids share a name, so no entry is lost when the map is
  rekeyed by name, and each value is \<open>100 * count / total\<close> over one total. For a frame
  with no point left the map is empty.
\<close>

theorem class_percentages_sum_to_100:
  "(front_labels \<noteq> [] \<longrightarrow>
      np_sum (map snd (class_percentages_named_of (semantic_of front_labels))) = Fin 100)
   \<and> (front_labels = [] \<longrightarrow> class_percentages_named_of (semantic_of front_labels) = [])"
proof (intro conjI impI)
  assume ne: "front_labels \<noteq> []"
  then have ne': "semantic_of front_labels \<noteq> []"
    by (simp add: semantic_of_def)
  have "map snd (class_percentages_named_of (semantic_of front_labels)) =
          map Fin (map (percent_of (semantic_of front_labels)) (np_unique (semantic_of front_labels)))"
    by (simp add: class_percentages_named_of_eq [OF ne'] comp_def)
  then show "np_sum (map snd (class_percentages_named_of (semantic_of front_labels))) = Fin 100"
    by (simp only: np_sum_Fin sum_percent_of [OF ne'])
next
  assume "front_labels = []"
  then show "class_percentages_named_of (semantic_of front_labels) = []"
    by (simp add: semantic_of_def class_percentages_named_of_empty)
qed

lemmas stats_eval =
  semantic_of_def instance_ids_of_def class_percentages_named_of_def class_percentages_of_def
  dict_comp_def np_unique_counts_def np_unique_def total_points_of_def class_name_of_def
  dict_get_def label_to_name_def identify_instances_def instance_step_def
  np_mean_def np_sum_def np_min_def np_linalg_norm_def get_spatial_location_def
  instance_class_name_def count_class_def

lemmas sequence_eval =
  process_sequence_def load_calib_def load_poses_def load_times_def load_frame_data_def
  process_frame_def list_get_def ego_motion_def translation_def vec_sub_def init_accum_def
  summarize_def time_series_of_def min_or_zero_def max_or_zero_def np_gt_def np_sub_def

theorem class_percentages_sum_to_100_witness:
  "[655370, 40, 10 :: label] \<noteq> []
   \<and> class_percentages_named_of (semantic_of [655370, 40, 10]) =
       [(''car'', Fin (200 / 3)), (''road'', Fin (100 / 3))]
   \<and> np_sum (map snd (class_percentages_named_of (semantic_of [655370, 40, 10]))) = Fin 100
   \<and> class_percentages_named_of (semantic_of []) = []"
proof -
  have a: "class_percentages_named_of (semantic_of [655370, 40, 10]) =
       [(''car'', Fin (200 / 3)), (''road'', Fin (100 / 3))]"
    by (simp add: stats_eval)
  have b: "np_sum (map snd (class_percentages_named_of (semantic_of [655370, 40, 10]))) = Fin 100"
    using class_percentages_sum_to_100 [of "[655370, 40, 10]"] by simp
  have c: "class_percentages_named_of (semantic_of []) = []"
    using class_percentages_sum_to_100 [of "[]"] by simp
  from a b c show ?thesis by simp
qed

section \<open>Ego motion and the frame loop\<close>

lemma np_truediv_pos: "b \<noteq> 0 \<Longrightarrow> np_truediv (Fin a) (Fin b) = Fin (a / b)"
  by simp

lemma np_sub_Fin [simp]: "np_sub (Fin a) (Fin b) = Fin (a - b)"
  by (simp add: np_sub_def)

lemma np_linalg_norm_nonneg: "0 \<le> np_linalg_norm p"
  by (cases p) (simp add: np_linalg_norm_def)

lemma ego_motion_finite:
  assumes "ego_motion pr (Fin s) td pose t = (sp, ac, td')"
  shows "(\<exists>v. sp = Fin v \<and> (0 \<le> v)) \<and> is_finite ac \<and> (pr = None \<longrightarrow> sp = Fin 0)"
  using assms np_linalg_norm_nonneg [of "vec_sub (translation pose) (translation (fst (the pr)))"]
  by (cases pr) (auto simp: ego_motion_def Let_def split: if_splits)

lemma process_frame_Inr:
  assumes "process_frame sf Tr P2 poses timestamps acc n = Inr acc'"
  shows "\<exists>sp ac td' fr. ego_motion (prev acc) (prev_speed acc) (total_distance acc)
                     (poses ! n) (timestamps ! n) = (sp, ac, td')
           \<and> n < length poses \<and> n < length timestamps
           \<and> speeds acc' = speeds acc @ [sp]
           \<and> prev_speed acc' = sp
           \<and> prev acc' = Some (poses ! n, timestamps ! n)
           \<and> frame_summaries acc' = frame_summaries acc @ [fr]
           \<and> ego_speed fr = sp \<and> ego_acceleration fr = ac
           \<and> total_distance acc' = td'
           \<and> class_percentages_list acc' = class_percentages_list acc @ [class_percentages fr]"
  using assms unfolding process_frame_def bind_res_def list_get_def Let_def
  by (auto split: sum.splits prod.splits if_splits)

lemma process_frame_speeds_ok:
  assumes "process_frame sf Tr P2 poses timestamps acc n = Inr acc'" "speeds_ok acc"
  shows "speeds_ok acc'"
proof -
  from process_frame_Inr [OF assms(1)] obtain sp ac td' fr where
    e: "ego_motion (prev acc) (prev_speed acc) (total_distance acc) (poses ! n) (timestamps ! n) = (sp, ac, td')"
    and s: "speeds acc' = speeds acc @ [sp]" "prev_speed acc' = sp"
           "prev acc' = Some (poses ! n, timestamps ! n)"
           "frame_summaries acc' = frame_summaries acc @ [fr]"
           "ego_speed fr = sp" "ego_acceleration fr = ac"
           "class_percentages_list acc' = class_percentages_list acc @ [class_percentages fr]"
    by blast
  from assms(2) obtain s0 where s0: "prev_speed acc = Fin s0"
    unfolding speeds_ok_def by blast
  from ego_motion_finite [OF e [unfolded s0]]
  have f: "\<exists>v. sp = Fin v \<and> 0 \<le> v" "is_finite ac" "prev acc = None \<longrightarrow> sp = Fin 0"
    by blast+
  show ?thesis
    using assms(2) f s unfolding speeds_ok_def
    by (cases "speeds acc") auto
qed

lemma frame_loop_speeds_ok:
  "frame_loop sf Tr P2 poses timestamps ns acc = Inr acc' \<Longrightarrow> speeds_ok acc \<Longrightarrow>
     speeds_ok acc' \<and> length (speeds acc') = length (speeds acc) + length ns"
proof (induction ns arbitrary: acc)
  case Nil
  then show ?case by simp
next
  case (Cons n ns)
  from Cons.prems(1) obtain acc1 where
    a: "process_frame sf Tr P2 poses timestamps acc n = Inr acc1"
    and b: "frame_loop sf Tr P2 poses timestamps ns acc1 = Inr acc'"
    by (cases "process_frame sf Tr P2 poses timestamps acc n") auto
  have ok1: "speeds_ok acc1"
    by (rule process_frame_speeds_ok [OF a Cons.prems(2)])
  have len1: "length (speeds acc1) = length (speeds acc) + 1"
    using process_frame_Inr [OF a] by auto
  from Cons.IH [OF b ok1] len1 show ?case by simp
qed

lemma speeds_ok_init: "speeds_ok init_accum"
  by (simp add: speeds_ok_def init_accum_def)

lemma py_min_zero:
  "\<forall>x \<in> set xs. \<exists>s. x = Fin s \<and> 0 \<le> s \<Longrightarrow> py_min (Fin 0) xs = Fin 0"
  by (induction xs) auto

lemma min_or_zero_zero:
  assumes "\<forall>x \<in> set xs. \<exists>s. x = Fin s \<and> 0 \<le> s" "xs \<noteq> [] \<longrightarrow> hd xs = Fin 0"
  shows "min_or_zero xs = Fin 0"
  using assms py_min_zero [of "tl xs"] by (cases xs) (auto simp: min_or_zero_def)

lemma process_sequence_Inr:
  assumes "process_sequence sf = Inr (fs, summary)"
  shows "\<exists>Tr P2 poses timestamps acc.
           calib_txt sf = Some (Tr, P2) \<and> poses_txt sf = Some poses \<and> times_txt sf = Some timestamps
           \<and> frame_loop sf Tr P2 poses timestamps [0..<length poses] init_accum = Inr acc
           \<and> summarize poses timestamps acc = Inr summary \<and> fs = frame_summaries acc"
  using assms unfolding process_sequence_def load_calib_def load_poses_def load_times_def bind_res_def
  by (auto split: sum.splits option.splits prod.splits)

lemma summarize_Inr:
  assumes "summarize poses timestamps acc = Inr summary"
  shows "min_speed summary = min_or_zero (speeds acc) \<and> total_frames summary = length poses
         \<and> average_class_percentages summary = average_class_percentages_of (class_percentages_list acc)
         \<and> total_unique_classes summary = all_classes_of (class_percentages_list acc)"
  using assms unfolding summarize_def bind_res_def Let_def
  by (auto split: sum.splits)

lemma process_sequence_speeds_ok:
  assumes "process_sequence sf = Inr (fs, summary)"
  shows "\<exists>poses timestamps acc. speeds_ok acc \<and> fs = frame_summaries acc
           \<and> length (speeds acc) = length poses
           \<and> summarize poses timestamps acc = Inr summary"
proof -
  from process_sequence_Inr [OF assms] obtain Tr P2 poses timestamps acc where
    l: "frame_loop sf Tr P2 poses timestamps [0..<length poses] init_accum = Inr acc"
    and su: "summarize poses timestamps acc = Inr summary" and fs: "fs = frame_summaries acc"
    by blast
  have "speeds_ok acc \<and> length (speeds acc) = length poses"
    using frame_loop_speeds_ok [OF l speeds_ok_init] by (simp add: init_accum_def)
  with su fs show ?thesis by blast
qed

lemma example_sequence_runs:
  "\<exists>fs summary. process_sequence example_sequence = Inr (fs, summary) \<and> length fs = 2
      \<and> ego_speed (fs ! 1) = Fin 2 \<and> max_speed summary = Fin 2"
  by (simp add: example_sequence_def example_frames_def projection_eval stats_eval sequence_eval upt_rec)



text \<open>
  Claim C10. The \<open>min_speed\<close> of every sequence summary is 0. It is the minimum of the
  frames' speeds; every speed is finite and non-negative, and the first frame's speed
  is 0.
\<close>

theorem min_speed_is_zero:
  assumes "process_sequence sf = Inr (fs, summary)"
  shows "min_speed summary = Fin 0
       \<and> min_speed summary = min_or_zero (map ego_speed fs)
       \<and> (\<forall>f \<in> set fs. \<exists>v. ego_speed f = Fin v \<and> 0 \<le> v)
       \<and> (fs \<noteq> [] \<longrightarrow> ego_speed (hd fs) = Fin 0)
       \<and> length fs = total_frames summary"
proof -
  from process_sequence_speeds_ok [OF assms] obtain poses timestamps acc where
    ok: "speeds_ok acc" and fs: "fs = frame_summaries acc"
    and len: "length (speeds acc) = length poses"
    and su: "summarize poses timestamps acc = Inr summary"
    by blast
  have sp: "speeds acc = map ego_speed fs"
    using ok fs unfolding speeds_ok_def by simp
  have nonneg: "\<forall>x \<in> set (speeds acc). \<exists>s. x = Fin s \<and> 0 \<le> s"
    and first: "speeds acc \<noteq> [] \<longrightarrow> hd (speeds acc) = Fin 0"
    using ok unfolding speeds_ok_def by blast+
  have m: "min_or_zero (speeds acc) = Fin 0"
    by (rule min_or_zero_zero [OF nonneg first])
  have a: "min_speed summary = Fin 0" "min_speed summary = min_or_zero (map ego_speed fs)"
          "length fs = total_frames summary"
  proof -
    show "min_speed summary = Fin 0"
      using summarize_Inr [OF su] m by simp
    show "min_speed summary = min_or_zero (map ego_speed fs)"
      using summarize_Inr [OF su] sp by simp
    have "length fs = length (speeds acc)"
      unfolding sp by simp
    then show "length fs = total_frames summary"
      using summarize_Inr [OF su] len by simp
  qed
  have b: "\<forall>f \<in> set fs. \<exists>v. ego_speed f = Fin v \<and> 0 \<le> v"
    using nonneg unfolding sp by simp
  have c: "fs \<noteq> [] \<longrightarrow> ego_speed (hd fs) = Fin 0"
    using first unfolding sp by (simp add: hd_map)
  from a b c show ?thesis by blast
qed

theorem min_speed_is_zero_witness:
  "\<exists>fs summary. process_sequence example_sequence = Inr (fs, summary)
      \<and> length fs = 2 \<and> ego_speed (fs ! 1) = Fin 2 \<and> max_speed summary = Fin 2
      \<and> min_speed summary = Fin 0"
proof -
  from example_sequence_runs obtain fs summary where
    h: "process_sequence example_sequence = Inr (fs, summary)"
    and r: "length fs = 2" "ego_speed (fs ! 1) = Fin 2" "max_speed summary = Fin 2"
    by blast
  from min_speed_is_zero [OF h] have "min_speed summary = Fin 0" by blast
  with h r show ?thesis by blast
qed

section \<open>The batch driver and malformed frames\<close>

lemma process_frame_mismatch:
  assumes "frame_files sf n = Some (points, labels)" "length points \<noteq> length labels"
    and "points \<noteq> []"
  shows "process_frame sf Tr P2 poses timestamps acc n = Inl IndexError"
proof -
  have "project_to_front_view points labels Tr P2 = Inl IndexError"
    using assms(2,3) by (intro project_to_front_view_mismatch) simp_all
  then show ?thesis
    using assms(1) by (simp add: process_frame_def load_frame_data_def)
qed

lemma frame_loop_fails:
  assumes "n \<in> set ns" "\<And>acc. \<exists>e. process_frame sf Tr P2 poses timestamps acc n = Inl e"
  shows "\<exists>e. frame_loop sf Tr P2 poses timestamps ns acc = Inl e"
  using assms(1)
proof (induction ns arbitrary: acc)
  case Nil
  then show ?case by simp
next
  case (Cons m ns)
  show ?case
  proof (cases "process_frame sf Tr P2 poses timestamps acc m")
    case (Inl e)
    then show ?thesis by simp
  next
    case (Inr acc1)
    with assms(2) [of acc] have "m \<noteq> n" by auto
    with Cons.prems have "n \<in> set ns" by simp
    from Cons.IH [OF this] Inr show ?thesis by simp
  qed
qed

lemma process_sequence_mismatch:
  assumes "poses_txt sf = Some poses" "n < length poses"
    and "frame_files sf n = Some (points, labels)" "length points \<noteq> length labels"
    and "points \<noteq> []"
  shows "\<exists>e. process_sequence sf = Inl e"
proof (cases "process_sequence sf")
  case (Inl e)
  then show ?thesis by blast
next
  case (Inr r)
  obtain fs summary where r: "r = (fs, summary)" by (cases r)
  from process_sequence_Inr [OF Inr [unfolded r]] assms(1) obtain Tr P2 timestamps acc where
    l: "frame_loop sf Tr P2 poses timestamps [0..<length poses] init_accum = Inr acc"
    by auto
  have "n \<in> set [0..<length poses]"
    using assms(2) by simp
  from frame_loop_fails [OF this, of sf Tr P2 poses timestamps init_accum]
    process_frame_mismatch [OF assms(3,4,5)] l
  show ?thesis by auto
qed

lemma stats_files_process_one:
  "stats_files (process_one dataset out s) =
     (case dataset s of
        None \<Rightarrow> stats_files out
      | Some sf \<Rightarrow> (case process_sequence sf of
                      Inr res \<Rightarrow> (stats_files out)(s \<mapsto> res)
                    | Inl e \<Rightarrow> stats_files out))"
  by (simp add: process_one_def split: option.splits sum.splits)

lemma stats_files_foldl:
  "distinct ss \<Longrightarrow>
   stats_files (foldl (process_one dataset) out ss) s =
     (if s \<in> set ss \<and> written dataset s \<noteq> None then written dataset s else stats_files out s)"
proof (induction ss arbitrary: out)
  case Nil
  then show ?case by simp
next
  case (Cons a ss)
  then show ?case
    by (auto simp: stats_files_process_one written_def split: option.splits sum.splits)
qed

lemma printed_process_one_mono: "set (printed out) \<subseteq> set (printed (process_one dataset out s))"
  by (auto simp: process_one_def split: option.splits sum.splits)

lemma printed_foldl_mono: "set (printed out) \<subseteq> set (printed (foldl (process_one dataset) out ss))"
proof (induction ss arbitrary: out)
  case Nil
  then show ?case by simp
next
  case (Cons a ss)
  from printed_process_one_mono [of out dataset a] Cons [of "process_one dataset out a"]
  show ?case by auto
qed

lemma printed_foldl_error:
  assumes "s \<in> set ss" "dataset s = Some sf" "process_sequence sf = Inl e"
  shows "ErrorProcessing s e \<in> set (printed (foldl (process_one dataset) out ss))"
  using assms(1)
proof (induction ss arbitrary: out)
  case Nil
  then show ?case by simp
next
  case (Cons a ss)
  show ?case
  proof (cases "a = s")
    case True
    have "ErrorProcessing s e \<in> set (printed (process_one dataset out s))"
      using assms(2,3) by (simp add: process_one_def)
    with printed_foldl_mono [of "process_one dataset out s" dataset ss] True
    show ?thesis by auto
  next
    case False
    with Cons.prems have "s \<in> set ss" by simp
    from Cons.IH [OF this] show ?thesis by simp
  qed
qed

text \<open>
  Claim C8, as amended. When some frame of a sequence has at least one point and a label
  array of another length, \<open>process_sequence\<close> raises, so the driver writes no output
  file for that sequence and prints the error. The batch goes on: for every other
  sequence number the driver writes exactly what that sequence yields on its own.
\<close>

theorem length_mismatch_aborts_sequence:
  assumes "s < 11" "dataset s = Some sf"
    and "poses_txt sf = Some poses" "n < length poses"
    and "frame_files sf n = Some (points, labels)" "length points \<noteq> length labels"
    and "points \<noteq> []"
  shows "(\<exists>e. process_sequence sf = Inl e
              \<and> ErrorProcessing s e \<in> set (printed (process_all_sequences dataset out)))
       \<and> stats_files (process_all_sequences dataset out) s = stats_files out s
       \<and> (\<forall>s'. s' < 11 \<and> s' \<noteq> s \<longrightarrow>
             stats_files (process_all_sequences dataset out) s' =
               (if written dataset s' \<noteq> None then written dataset s' else stats_files out s'))"
proof -
  from process_sequence_mismatch [OF assms(3-7)] obtain e where e: "process_sequence sf = Inl e"
    by blast
  have s: "s \<in> set [0..<11]"
    using assms(1) by simp
  have a: "ErrorProcessing s e \<in> set (printed (process_all_sequences dataset out))"
    unfolding process_all_sequences_def
    using printed_foldl_error [of s "[0..<11]" dataset sf e out] s assms(2) e by blast
  have w: "written dataset s = None"
    using assms(2) e by (simp add: written_def)
  have d: "distinct [0..<11 :: nat]" by simp
  have b: "stats_files (process_all_sequences dataset out) s = stats_files out s"
    unfolding process_all_sequences_def stats_files_foldl [OF d] using w by simp
  have c: "stats_files (process_all_sequences dataset out) s' =
               (if written dataset s' \<noteq> None then written dataset s' else stats_files out s')"
    if "s' < 11" for s'
    unfolding process_all_sequences_def stats_files_foldl [OF d] using that by simp
  from e a b c show ?thesis by blast
qed


theorem length_mismatch_aborts_sequence_witness:
  "(3 :: nat) < 11 \<and> example_dataset 3 = Some mismatched_sequence
   \<and> poses_txt mismatched_sequence =
        Some [((1, 0, 0, 0), (0, 1, 0, 0), (0, 0, 1, 0)), ((1, 0, 0, 2), (0, 1, 0, 0), (0, 0, 1, 0))]
   \<and> frame_files mismatched_sequence 0 = Some ([(1, 2, 1), (0, 0, -1)], [655370])
   \<and> length [(1, 2, 1), (0, 0, -1) :: point] \<noteq> length [655370 :: label]
   \<and> [(1, 2, 1), (0, 0, -1) :: point] \<noteq> []
   \<and> (\<exists>e. process_sequence mismatched_sequence = Inl e
          \<and> ErrorProcessing 3 e \<in> set (printed (process_all_sequences example_dataset no_outputs)))
   \<and> stats_files (process_all_sequences example_dataset no_outputs) 3 = None
   \<and> stats_files (process_all_sequences example_dataset no_outputs) 4 \<noteq> None"
proof -
  have a: "(3 :: nat) < 11" "example_dataset 3 = Some mismatched_sequence"
    by (simp_all add: example_dataset_def)
  have b: "poses_txt mismatched_sequence =
        Some [((1, 0, 0, 0), (0, 1, 0, 0), (0, 0, 1, 0)), ((1, 0, 0, 2), (0, 1, 0, 0), (0, 0, 1, 0))]"
    by (simp add: mismatched_sequence_def example_sequence_def)
  have c: "0 < length [((1, 0, 0, 0), (0, 1, 0, 0), (0, 0, 1, 0)), ((1, 0, 0, 2), (0, 1, 0, 0), (0, 0, 1, 0)) :: mat34]"
    by simp
  have d: "frame_files mismatched_sequence 0 = Some ([(1, 2, 1), (0, 0, -1)], [655370])"
    by (simp add: mismatched_sequence_def)
  have e: "length [(1, 2, 1), (0, 0, -1) :: point] \<noteq> length [655370 :: label]"
    by simp
  have ne: "[(1, 2, 1), (0, 0, -1) :: point] \<noteq> []"
    by simp
  note t = length_mismatch_aborts_sequence
             [where dataset = example_dataset and s = 3 and out = no_outputs, OF a b c d e ne]
  have w: "written example_dataset 4 \<noteq> None"
    using example_sequence_runs by (auto simp: written_def example_dataset_def)
  have f: "stats_files (process_all_sequences example_dataset no_outputs) 3 = None"
    using t by (simp add: no_outputs_def)
  have g: "stats_files (process_all_sequences example_dataset no_outputs) 4 \<noteq> None"
    using t w by simp
  from a b d e ne t f g show ?thesis by blast
qed

text \<open>
  Claim C8 as stated fails for a frame without points. The sequence in directory 03 has a
  first frame of no point and one label: the arrays differ in length, yet the empty mask
  selects nothing from the labels without an error, the frame is summarised as an empty
  frame, \<open>process_sequence\<close> returns and the driver writes the output files.
\<close>

theorem empty_frame_mismatch_counterexample:
  "empty_points_dataset 3 = Some empty_points_sequence
   \<and> poses_txt empty_points_sequence =
        Some [((1, 0, 0, 0), (0, 1, 0, 0), (0, 0, 1, 0)), ((1, 0, 0, 2), (0, 1, 0, 0), (0, 0, 1, 0))]
   \<and> frame_files empty_points_sequence 0 = Some ([], [655370])
   \<and> length ([] :: point list) \<noteq> length [655370 :: label]
   \<and> project_to_front_view [] [655370] ((1, 0, 0, 0), (0, 1, 0, 0), (0, 0, 1, 0))
         ((1, 0, 0, 0), (0, 1, 0, 0), (0, 0, 1, 0)) = Inr ([], [], [])
   \<and> \<not> isl (process_sequence empty_points_sequence)
   \<and> stats_files (process_all_sequences empty_points_dataset no_outputs) 3 \<noteq> None
   \<and> printed (process_all_sequences empty_points_dataset no_outputs) =
        [Skipping 0, Skipping 1, Skipping 2, Processing 3, Generated 3, Skipping 4, Skipping 5,
         Skipping 6, Skipping 7, Skipping 8, Skipping 9, Skipping 10]"
proof -
  have a: "empty_points_dataset 3 = Some empty_points_sequence"
    by (simp add: empty_points_dataset_def)
  have b: "poses_txt empty_points_sequence =
        Some [((1, 0, 0, 0), (0, 1, 0, 0), (0, 0, 1, 0)), ((1, 0, 0, 2), (0, 1, 0, 0), (0, 0, 1, 0))]"
    by (simp add: empty_points_sequence_def example_sequence_def)
  have c: "frame_files empty_points_sequence 0 = Some ([], [655370])"
    by (simp add: empty_points_sequence_def)
  have d: "length ([] :: point list) \<noteq> length [655370 :: label]"
    by simp
  have e: "project_to_front_view [] [655370] ((1, 0, 0, 0), (0, 1, 0, 0), (0, 0, 1, 0))
         ((1, 0, 0, 0), (0, 1, 0, 0), (0, 0, 1, 0)) = Inr ([], [], [])"
    by (rule project_to_front_view_no_points)
  have "\<exists>fs summary. process_sequence empty_points_sequence = Inr (fs, summary)"
    by (simp add: empty_points_sequence_def example_sequence_def example_frames_def
          projection_eval stats_eval sequence_eval upt_rec)
  then obtain fs summary where h: "process_sequence empty_points_sequence = Inr (fs, summary)"
    by (elim exE)
  have f: "\<not> isl (process_sequence empty_points_sequence)"
    by (simp add: h)
  have w: "written empty_points_dataset 3 \<noteq> None"
    by (simp add: written_def a h)
  have dist: "distinct [0..<11 :: nat]" by simp
  have g: "stats_files (process_all_sequences empty_points_dataset no_outputs) 3 \<noteq> None"
    unfolding process_all_sequences_def stats_files_foldl [OF dist] using w by simp
  have p: "printed (process_all_sequences empty_points_dataset no_outputs) =
        [Skipping 0, Skipping 1, Skipping 2, Processing 3, Generated 3, Skipping 4, Skipping 5,
         Skipping 6, Skipping 7, Skipping 8, Skipping 9, Skipping 10]"
    by (simp add: process_all_sequences_def upt_rec process_one_def empty_points_dataset_def
          no_outputs_def h)
  from a b c d e f g p show ?thesis by (intro conjI)
qed

section \<open>Average class percentages\<close>

lemma foldl_union_keys:
  "foldl (\<lambda>s cp. s \<union> set (map fst cp)) S cpl = S \<union> (\<Union>cp \<in> set cpl. fst ` set cp)"
  by (induction cpl arbitrary: S) auto

lemma all_classes_of_eq: "all_classes_of cpl = (\<Union>cp \<in> set cpl. fst ` set cp)"
  unfolding all_classes_of_def foldl_union_keys by simp

lemma dom_average_class_percentages_of:
  "dom (average_class_percentages_of cpl) = all_classes_of cpl"
  by (auto simp: average_class_percentages_of_def dom_def)

lemma dict_get_frame_percent:
  assumes "percentages_finite cp"
  shows "dict_get cp cls (Fin 0) = Fin (frame_percent cp cls)"
proof (cases "map_of cp cls")
  case None
  then show ?thesis by (simp add: dict_get_def frame_percent_def)
next
  case (Some v)
  then have "(cls, v) \<in> set cp" by (rule map_of_SomeD)
  with assms have "is_finite v"
    unfolding percentages_finite_def by force
  then obtain r where "v = Fin r" by (cases v) simp_all
  with Some show ?thesis by (simp add: dict_get_def frame_percent_def)
qed

lemma np_mean_Fin: "rs \<noteq> [] \<Longrightarrow> np_mean (map Fin rs) = Fin (sum_list rs / real (length rs))"
  by (simp add: np_mean_def np_sum_Fin)

lemma average_class_percentages_of_spec:
  assumes "\<forall>cp \<in> set cpl. percentages_finite cp" "cls \<in> all_classes_of cpl"
  shows "average_class_percentages_of cpl cls = Some (Fin (spec_average_class_percentage cpl cls))"
proof -
  have ne: "cpl \<noteq> []"
    using assms(2) by (auto simp: all_classes_of_eq)
  have eq: "map (\<lambda>cp. dict_get cp cls (Fin 0)) cpl = map Fin (map (\<lambda>cp. frame_percent cp cls) cpl)"
    using assms(1) by (simp add: dict_get_frame_percent)
  have "np_mean (map Fin (map (\<lambda>cp. frame_percent cp cls) cpl)) =
               Fin (spec_average_class_percentage cpl cls)"
    unfolding spec_average_class_percentage_def
    using np_mean_Fin [of "map (\<lambda>cp. frame_percent cp cls) cpl"] ne by simp
  then have "np_mean (map (\<lambda>cp. dict_get cp cls (Fin 0)) cpl) =
               Fin (spec_average_class_percentage cpl cls)"
    by (simp only: eq)
  with assms(2) show ?thesis
    by (simp add: average_class_percentages_of_def)
qed

lemma class_percentages_named_of_finite:
  "percentages_finite (class_percentages_named_of xs)"
proof (cases "xs = []")
  case True
  then show ?thesis
    by (simp add: class_percentages_named_of_empty percentages_finite_def)
next
  case False
  then show ?thesis
    by (auto simp: class_percentages_named_of_eq percentages_finite_def)
qed

lemma process_frame_percentages:
  assumes "process_frame sf Tr P2 poses timestamps acc n = Inr acc'"
  shows "\<exists>fr. frame_summaries acc' = frame_summaries acc @ [fr]
              \<and> percentages_finite (class_percentages fr)"
  using assms class_percentages_named_of_finite
  unfolding process_frame_def bind_res_def list_get_def Let_def
  by (auto split: sum.splits prod.splits if_splits)

lemma frame_loop_percentages:
  "frame_loop sf Tr P2 poses timestamps ns acc = Inr acc' \<Longrightarrow>
   \<forall>f \<in> set (frame_summaries acc). percentages_finite (class_percentages f) \<Longrightarrow>
   \<forall>f \<in> set (frame_summaries acc'). percentages_finite (class_percentages f)"
proof (induction ns arbitrary: acc)
  case Nil
  then show ?case by simp
next
  case (Cons n ns)
  from Cons.prems(1) obtain acc1 where
    a: "process_frame sf Tr P2 poses timestamps acc n = Inr acc1"
    and b: "frame_loop sf Tr P2 poses timestamps ns acc1 = Inr acc'"
    by (cases "process_frame sf Tr P2 poses timestamps acc n") auto
  from process_frame_percentages [OF a] Cons.prems(2)
  have "\<forall>f \<in> set (frame_summaries acc1). percentages_finite (class_percentages f)"
    by auto
  from Cons.IH [OF b this] show ?case .
qed

text \<open>
  Claim C4. The keys of \<open>average_class_percentages\<close> are the class names seen in any
  frame of the sequence, and the value of a class is the sum of its per-frame
  percentages, a frame without the class counting as 0, divided by the number of all
  frames. In particular three frames with 10 percent, no entry and 20 percent for
  \<open>car\<close> give the average 10.
\<close>

theorem average_class_percentages_over_all_frames:
  "(process_sequence sf = Inr (fs, summary) \<longrightarrow>
      dom (average_class_percentages summary) = (\<Union>f \<in> set fs. fst ` set (class_percentages f))
      \<and> total_unique_classes summary = dom (average_class_percentages summary)
      \<and> (\<forall>cls \<in> dom (average_class_percentages summary).
            average_class_percentages summary cls =
              Some (Fin (spec_average_class_percentage (map class_percentages fs) cls))))
   \<and> (map_of c0 ''car'' = Some (Fin 10) \<and> map_of c1 ''car'' = None
        \<and> map_of c2 ''car'' = Some (Fin 20) \<longrightarrow>
      average_class_percentages_of [c0, c1, c2] ''car'' = Some (Fin 10))"
proof (intro conjI impI)
  assume h: "process_sequence sf = Inr (fs, summary)"
  from process_sequence_Inr [OF h] obtain Tr P2 poses timestamps acc where
    l: "frame_loop sf Tr P2 poses timestamps [0..<length poses] init_accum = Inr acc"
    and su: "summarize poses timestamps acc = Inr summary" and fs: "fs = frame_summaries acc"
    by blast
  have ok: "speeds_ok acc"
    using frame_loop_speeds_ok [OF l speeds_ok_init] by simp
  then have cpl: "class_percentages_list acc = map class_percentages fs"
    unfolding speeds_ok_def fs by blast
  have fin: "\<forall>cp \<in> set (map class_percentages fs). percentages_finite cp"
    using frame_loop_percentages [OF l] unfolding fs by (simp add: init_accum_def)
  have avg: "average_class_percentages summary = average_class_percentages_of (map class_percentages fs)"
    and tot: "total_unique_classes summary = all_classes_of (map class_percentages fs)"
    using summarize_Inr [OF su] cpl by simp_all
  show "dom (average_class_percentages summary) = (\<Union>f \<in> set fs. fst ` set (class_percentages f))"
    unfolding avg dom_average_class_percentages_of all_classes_of_eq by simp
  show "total_unique_classes summary = dom (average_class_percentages summary)"
    unfolding avg tot dom_average_class_percentages_of ..
  show "\<forall>cls \<in> dom (average_class_percentages summary).
            average_class_percentages summary cls =
              Some (Fin (spec_average_class_percentage (map class_percentages fs) cls))"
    unfolding avg dom_average_class_percentages_of
    using average_class_percentages_of_spec [OF fin] by blast
next
  assume c: "map_of c0 ''car'' = Some (Fin 10) \<and> map_of c1 ''car'' = None
        \<and> map_of c2 ''car'' = Some (Fin 20)"
  then have "(''car'', Fin 10) \<in> set c0"
    by (intro map_of_SomeD) simp
  then have "''car'' \<in> all_classes_of [c0, c1, c2]"
    unfolding all_classes_of_eq by force
  with c show "average_class_percentages_of [c0, c1, c2] ''car'' = Some (Fin 10)"
    by (simp add: average_class_percentages_of_def dict_get_def np_mean_def np_sum_def)
qed


lemma example_sequence_percentages:
  "\<exists>fs summary. process_sequence example_sequence = Inr (fs, summary)
      \<and> map class_percentages fs = [[(''car'', Fin 100)], [(''road'', Fin 100)]]"
  by (simp add: example_sequence_def example_frames_def projection_eval stats_eval sequence_eval upt_rec)

theorem average_class_percentages_over_all_frames_witness:
  "(\<exists>fs summary. process_sequence example_sequence = Inr (fs, summary)
      \<and> map class_percentages fs = [[(''car'', Fin 100)], [(''road'', Fin 100)]]
      \<and> ''car'' \<in> dom (average_class_percentages summary)
      \<and> average_class_percentages summary ''car'' = Some (Fin 50))
   \<and> map_of [(''car'', Fin 10)] ''car'' = Some (Fin 10)
   \<and> map_of ([] :: (string \<times> npfloat) list) ''car'' = None
   \<and> map_of [(''car'', Fin 20)] ''car'' = Some (Fin 20)
   \<and> average_class_percentages_of [[(''car'', Fin 10)], [], [(''car'', Fin 20)]] ''car'' = Some (Fin 10)"
proof -
  from example_sequence_percentages obtain fs summary where
    h: "process_sequence example_sequence = Inr (fs, summary)"
    and p: "map class_percentages fs = [[(''car'', Fin 100)], [(''road'', Fin 100)]]"
    by (elim exE conjE)
  note t = average_class_percentages_over_all_frames
             [where sf = example_sequence and fs = fs and summary = summary
                and ?c0.0 = "[(''car'', Fin 10)]" and ?c1.0 = "[]" and ?c2.0 = "[(''car'', Fin 20)]"]
  from t h have d: "dom (average_class_percentages summary) =
                      (\<Union>f \<in> set fs. fst ` set (class_percentages f))"
    by blast
  have "(\<Union>f \<in> set fs. fst ` set (class_percentages f)) =
          (\<Union>cp \<in> set (map class_percentages fs). fst ` set cp)"
    by simp
  also have "\<dots> = {''car'', ''road''}"
    unfolding p by auto
  finally have car: "''car'' \<in> dom (average_class_percentages summary)"
    unfolding d by simp
  from t h car have "average_class_percentages summary ''car'' =
      Some (Fin (spec_average_class_percentage (map class_percentages fs) ''car''))"
    by blast
  then have v: "average_class_percentages summary ''car'' = Some (Fin 50)"
    unfolding p by (simp add: spec_average_class_percentage_def frame_percent_def)
  have m: "map_of [(''car'', Fin 10)] ''car'' = Some (Fin 10)"
          "map_of ([] :: (string \<times> npfloat) list) ''car'' = None"
          "map_of [(''car'', Fin 20)] ''car'' = Some (Fin 20)"
    by simp_all
  from t m have e: "average_class_percentages_of [[(''car'', Fin 10)], [], [(''car'', Fin 20)]] ''car'' = Some (Fin 10)"
    by blast
  from h p car v have "\<exists>fs summary. process_sequence example_sequence = Inr (fs, summary)
      \<and> map class_percentages fs = [[(''car'', Fin 100)], [(''road'', Fin 100)]]
      \<and> ''car'' \<in> dom (average_class_percentages summary)
      \<and> average_class_percentages summary ''car'' = Some (Fin 50)"
    by (intro exI conjI)
  with m e show ?thesis by (intro conjI)
qed

section \<open>Instance aggregation\<close>

lemma bool_index_members:
  assumes "length xs = length labels"
  shows "bool_index xs (map (\<lambda>j. j = i) (instance_ids_of labels)) = Inr (members xs labels i)"
proof -
  have "map fst (filter snd (zip xs (map (\<lambda>j. j = i) (map (drop_bit 16) labels)))) =
          map fst (filter (\<lambda>xl. drop_bit 16 (snd xl) = i) (zip xs labels))"
    using assms by (induction xs labels rule: list_induct2) auto
  then show ?thesis
    using assms by (simp add: bool_index_def instance_ids_of_def members_def)
qed

lemma length_members:
  assumes "length xs = length labels"
  shows "length (members xs labels i) = length (filter (\<lambda>l. drop_bit 16 l = i) labels)"
  using assms unfolding members_def by (induction xs labels rule: list_induct2) auto

lemma members_nonempty:
  assumes "length xs = length labels" "i \<in> set (instance_ids_of labels)"
  shows "members xs labels i \<noteq> []"
proof -
  from assms(2) obtain l where "l \<in> set labels" "drop_bit 16 l = i"
    by (auto simp: instance_ids_of_def)
  then have "filter (\<lambda>l. drop_bit 16 l = i) labels \<noteq> []"
    by (auto simp: filter_empty_conv)
  then show ?thesis
    using length_members [OF assms(1), of i] by auto
qed

lemma foldl_min_Min: "foldl min x rest = Min (set (x # rest))"
proof -
  have "foldl min x rest = fold min rest x"
    by (simp add: foldl_conv_fold min.commute)
  then show ?thesis
    by (simp only: Min.set_eq_fold)
qed

lemma np_min_Min: "xs \<noteq> [] \<Longrightarrow> np_min xs = Inr (Min (set xs))"
  by (cases xs) (simp_all add: np_min_def foldl_min_Min del: set_simps)

lemma instance_step_eq:
  assumes "length pf = length labels" "length pim = length labels"
    and "i \<in> set (instance_ids_of labels)" "i \<noteq> 0"
  shows "instance_step pf pim (semantic_of labels) (instance_ids_of labels) i =
           Inr [instance_of pf pim labels i]"
proof -
  have ls: "length (semantic_of labels) = length labels"
    by (simp add: semantic_of_def)
  note b = bool_index_members [OF ls, of i] bool_index_members [OF assms(1), of i]
           bool_index_members [OF assms(2), of i]
  note ne = members_nonempty [OF ls assms(3)] members_nonempty [OF assms(1,3)]
            members_nonempty [OF assms(2,3)]
  obtain s rest where s: "members (semantic_of labels) labels i = s # rest"
    using ne(1) by (cases "members (semantic_of labels) labels i") auto
  have m: "np_min (map np_linalg_norm (members pf labels i)) =
             Inr (Min (set (map np_linalg_norm (members pf labels i))))"
    using ne(2) by (intro np_min_Min) simp
  show ?thesis
    unfolding instance_step_def instance_of_def using assms(4) ne(3)
    by (simp add: b s m Let_def del: set_map)
qed

lemma instance_loop_eq:
  assumes "length pf = length labels" "length pim = length labels"
  shows "set us \<subseteq> set (instance_ids_of labels) \<Longrightarrow>
         instance_loop pf pim (semantic_of labels) (instance_ids_of labels) us acc =
           Inr (acc @ map (instance_of pf pim labels) (filter (\<lambda>i. i \<noteq> 0) us))"
proof (induction us arbitrary: acc)
  case Nil
  then show ?case by simp
next
  case (Cons i us)
  then have i: "i \<in> set (instance_ids_of labels)" and us: "set us \<subseteq> set (instance_ids_of labels)"
    by simp_all
  show ?case
  proof (cases "i = 0")
    case True
    then show ?thesis
      using Cons.IH [OF us] by (simp add: instance_step_def)
  next
    case False
    then show ?thesis
      using Cons.IH [OF us] instance_step_eq [OF assms i False] by simp
  qed
qed

lemma identify_instances_eq:
  assumes "length pf = length labels" "length pim = length labels"
  shows "identify_instances pf pim labels =
           Inr (map (instance_of pf pim labels)
                  (filter (\<lambda>i. i \<noteq> 0) (np_unique (instance_ids_of labels))))"
  unfolding identify_instances_def
  using instance_loop_eq [OF assms, of "np_unique (instance_ids_of labels)" "[]"]
  by (simp add: np_unique_set)


lemma distinct_singleton_set: "distinct xs \<Longrightarrow> set xs = {x} \<Longrightarrow> xs = [x]"
proof -
  assume d: "distinct xs" and s: "set xs = {x}"
  then have "length xs = 1"
    using distinct_card [OF d] by simp
  then obtain y where "xs = [y]"
    by (cases xs) auto
  with s show ?thesis by simp
qed

lemma members_semantic:
  "members (semantic_of labels) labels i =
     semantic_of (map snd (filter (\<lambda>xl. drop_bit 16 (snd xl) = i) (zip xs labels)))"
  if "length xs = length labels" for xs :: "'a list"
  using that unfolding members_def semantic_of_def
  by (induction xs labels rule: list_induct2) auto

lemma three_point_instance:
  assumes len: "length points_front = length front_labels" "length points_img = length front_labels"
    and f0: "filter (\<lambda>pl. drop_bit 16 (snd pl) \<noteq> 0) (zip points_front front_labels) =
               [(p1, l1), (p2, l2), (p3, l3)]"
    and i1: "drop_bit 16 l1 = 5" and i2: "drop_bit 16 l2 = 5" and i3: "drop_bit 16 l3 = 5"
    and c1: "l1 AND 0xFFFF = 10"
  shows "filter (\<lambda>i. i \<noteq> 0) (np_unique (instance_ids_of front_labels)) = [5]"
    and "instance_of points_front points_img front_labels 5 =
          \<lparr>inst_class = ''car'', inst_id = 5,
           spatial_location = spatial_location (instance_of points_front points_img front_labels 5),
           distance = Min {np_linalg_norm p1, np_linalg_norm p2, np_linalg_norm p3}\<rparr>"
proof -
  let ?Z = "zip points_front front_labels"
  have nz: "drop_bit 16 (snd pl) = 5" if "pl \<in> set ?Z" "drop_bit 16 (snd pl) \<noteq> 0" for pl
  proof -
    from that have "pl \<in> set (filter (\<lambda>pl. drop_bit 16 (snd pl) \<noteq> 0) ?Z)" by simp
    then have "pl \<in> {(p1, l1), (p2, l2), (p3, l3)}"
      unfolding f0 by simp
    with i1 i2 i3 show ?thesis by auto
  qed
  have "filter (\<lambda>pl. drop_bit 16 (snd pl) = 5) ?Z = filter (\<lambda>pl. drop_bit 16 (snd pl) \<noteq> 0) ?Z"
  proof (rule filter_cong [OF refl])
    fix pl assume "pl \<in> set ?Z"
    from nz [OF this] show "(drop_bit 16 (snd pl) = 5) = (drop_bit 16 (snd pl) \<noteq> 0)"
      by (cases "drop_bit 16 (snd pl) = 0") simp_all
  qed
  then have f5: "filter (\<lambda>pl. drop_bit 16 (snd pl) = 5) ?Z = [(p1, l1), (p2, l2), (p3, l3)]"
    by (simp only: f0)
  have mem: "members points_front front_labels 5 = [p1, p2, p3]"
    unfolding members_def f5 by simp
  have "members (semantic_of front_labels) front_labels 5 = semantic_of [l1, l2, l3]"
    unfolding members_semantic [OF len(1)] f5 by simp
  then have sem: "hd (members (semantic_of front_labels) front_labels 5) = 10"
    using c1 by (simp add: semantic_of_def)
  have ids: "set (instance_ids_of front_labels) \<subseteq> {0, 5}"
  proof
    fix i assume "i \<in> set (instance_ids_of front_labels)"
    then obtain l where l: "l \<in> set front_labels" "i = drop_bit 16 l"
      by (auto simp: instance_ids_of_def)
    then obtain p where "(p, l) \<in> set ?Z"
      using len(1) by (metis in_set_impl_in_set_zip2)
    from nz [OF this] l(2) show "i \<in> {0, 5}"
      by (cases "i = 0") simp_all
  qed
  have five: "5 \<in> set (instance_ids_of front_labels)"
  proof -
    have "(p1, l1) \<in> set (filter (\<lambda>pl. drop_bit 16 (snd pl) = 5) ?Z)"
      unfolding f5 by simp
    then have "(p1, l1) \<in> set ?Z" by simp
    then have "l1 \<in> set front_labels" by (rule set_zip_rightD)
    then have "drop_bit 16 l1 \<in> set (instance_ids_of front_labels)"
      unfolding instance_ids_of_def by simp
    then show ?thesis by (simp only: i1)
  qed
  have "set (filter (\<lambda>i. i \<noteq> 0) (np_unique (instance_ids_of front_labels))) = {5}"
  proof
    show "set (filter (\<lambda>i. i \<noteq> 0) (np_unique (instance_ids_of front_labels))) \<subseteq> {5}"
      using ids unfolding set_filter np_unique_set by blast
    show "{5} \<subseteq> set (filter (\<lambda>i. i \<noteq> 0) (np_unique (instance_ids_of front_labels)))"
      using five unfolding set_filter np_unique_set by simp
  qed
  moreover have "distinct (filter (\<lambda>i. i \<noteq> 0) (np_unique (instance_ids_of front_labels)))"
    by (rule distinct_filter [OF np_unique_distinct])
  ultimately show "filter (\<lambda>i. i \<noteq> 0) (np_unique (instance_ids_of front_labels)) = [5]"
    by (intro distinct_singleton_set)
  have cls: "instance_class_name 10 = ''car''"
    by (simp add: instance_class_name_def dict_get_def label_to_name_def)
  show "instance_of points_front points_img front_labels 5 =
          \<lparr>inst_class = ''car'', inst_id = 5,
           spatial_location = spatial_location (instance_of points_front points_img front_labels 5),
           distance = Min {np_linalg_norm p1, np_linalg_norm p2, np_linalg_norm p3}\<rparr>"
    unfolding instance_of_def mem sem cls by simp
qed


text \<open>
  Claim C3. For aligned arrays, instance aggregation returns one entry for each distinct
  instance id other than 0, in increasing order of id, and the distance of an entry is
  the least Euclidean norm of the 3D points that carry its id. When the points with a
  non-zero instance id are exactly three, all with instance id 5 and semantic class 10,
  the result is a single entry of class \<open>car\<close> whose distance is the least of the three
  norms.
\<close>

theorem instance_aggregation:
  assumes "length points_front = length front_labels" "length points_img = length front_labels"
  shows "identify_instances points_front points_img front_labels =
           Inr (map (instance_of points_front points_img front_labels)
                  (filter (\<lambda>i. i \<noteq> 0) (np_unique (instance_ids_of front_labels))))
       \<and> (\<forall>i. distance (instance_of points_front points_img front_labels i) =
                 Min (np_linalg_norm ` set (members points_front front_labels i)))
       \<and> (filter (\<lambda>pl. drop_bit 16 (snd pl) \<noteq> 0) (zip points_front front_labels) =
             [(p1, l1), (p2, l2), (p3, l3)]
           \<and> (\<forall>l \<in> {l1, l2, l3}. drop_bit 16 l = 5 \<and> l AND 0xFFFF = 10) \<longrightarrow>
          (\<exists>loc. identify_instances points_front points_img front_labels =
             Inr [\<lparr>inst_class = ''car'', inst_id = 5, spatial_location = loc,
                   distance = Min {np_linalg_norm p1, np_linalg_norm p2, np_linalg_norm p3}\<rparr>]))"
proof -
  have gen: "identify_instances points_front points_img front_labels =
           Inr (map (instance_of points_front points_img front_labels)
                  (filter (\<lambda>i. i \<noteq> 0) (np_unique (instance_ids_of front_labels))))"
    by (rule identify_instances_eq [OF assms])
  have dist: "distance (instance_of points_front points_img front_labels i) =
          Min (np_linalg_norm ` set (members points_front front_labels i))" for i
    by (simp add: instance_of_def)
  have three: "\<exists>loc. identify_instances points_front points_img front_labels =
             Inr [\<lparr>inst_class = ''car'', inst_id = 5, spatial_location = loc,
                   distance = Min {np_linalg_norm p1, np_linalg_norm p2, np_linalg_norm p3}\<rparr>]"
    if f0: "filter (\<lambda>pl. drop_bit 16 (snd pl) \<noteq> 0) (zip points_front front_labels) =
             [(p1, l1), (p2, l2), (p3, l3)]"
      and c: "\<forall>l \<in> {l1, l2, l3}. drop_bit 16 l = 5 \<and> l AND 0xFFFF = 10"
  proof -
    from c have i: "drop_bit 16 l1 = 5" "drop_bit 16 l2 = 5" "drop_bit 16 l3 = 5"
      and c1: "l1 AND 0xFFFF = 10"
      by blast+
    note t = three_point_instance [OF assms f0 i c1]
    have "identify_instances points_front points_img front_labels =
            Inr [instance_of points_front points_img front_labels 5]"
      unfolding gen t(1) by simp
    with t(2) show ?thesis by metis
  qed
  from gen dist three show ?thesis by blast
qed

theorem instance_aggregation_witness:
  "length [(2, 0, 0), (1, 0, 0), (0, 2, 0), (5, 5, 5) :: point] = length [327690, 327690, 327690, 40 :: label]
   \<and> length [(Fin 10, Fin 20), (Fin 20, Fin 20), (Fin 30, Fin 20), (Fin 0, Fin 0)] =
       length [327690, 327690, 327690, 40 :: label]
   \<and> filter (\<lambda>pl. drop_bit 16 (snd pl) \<noteq> 0)
        (zip [(2, 0, 0), (1, 0, 0), (0, 2, 0), (5, 5, 5) :: point] [327690, 327690, 327690, 40 :: label]) =
       [((2, 0, 0), 327690), ((1, 0, 0), 327690), ((0, 2, 0), 327690)]
   \<and> drop_bit 16 (327690 :: label) = 5 \<and> (327690 :: label) AND 0xFFFF = 10
   \<and> (\<exists>loc. identify_instances [(2, 0, 0), (1, 0, 0), (0, 2, 0), (5, 5, 5)]
          [(Fin 10, Fin 20), (Fin 20, Fin 20), (Fin 30, Fin 20), (Fin 0, Fin 0)]
          [327690, 327690, 327690, 40] =
        Inr [\<lparr>inst_class = ''car'', inst_id = 5, spatial_location = loc, distance = 1\<rparr>])"
proof -
  have a: "length [(2, 0, 0), (1, 0, 0), (0, 2, 0), (5, 5, 5) :: point] =
             length [327690, 327690, 327690, 40 :: label]"
    by simp
  have b: "length [(Fin 10, Fin 20), (Fin 20, Fin 20), (Fin 30, Fin 20), (Fin 0, Fin 0)] =
       length [327690, 327690, 327690, 40 :: label]"
    by simp
  have w: "drop_bit 16 (327690 :: label) = 5" "(327690 :: label) AND 0xFFFF = 10"
          "drop_bit 16 (40 :: label) = 0"
    by simp_all
  have c: "filter (\<lambda>pl. drop_bit 16 (snd pl) \<noteq> 0)
        (zip [(2, 0, 0), (1, 0, 0), (0, 2, 0), (5, 5, 5) :: point] [327690, 327690, 327690, 40 :: label]) =
       [((2, 0, 0), 327690), ((1, 0, 0), 327690), ((0, 2, 0), 327690)]"
    by (simp add: w)
  have d: "\<forall>l \<in> {327690, 327690, 327690 :: label}. drop_bit 16 l = 5 \<and> l AND 0xFFFF = 10"
    by (simp add: w)
  have m: "Min {np_linalg_norm (2, 0, 0), np_linalg_norm (1, 0, 0), np_linalg_norm (0, 2, 0)} = 1"
    by (simp add: np_linalg_norm_def)
  from instance_aggregation [OF a b, THEN conjunct2, THEN conjunct2, rule_format, OF conjI, OF c d]
  have "\<exists>loc. identify_instances [(2, 0, 0), (1, 0, 0), (0, 2, 0), (5, 5, 5)]
          [(Fin 10, Fin 20), (Fin 20, Fin 20), (Fin 30, Fin 20), (Fin 0, Fin 0)]
          [327690, 327690, 327690, 40] =
        Inr [\<lparr>inst_class = ''car'', inst_id = 5, spatial_location = loc, distance = 1\<rparr>]"
    unfolding m .
  with a b c w(1,2) show ?thesis by (intro conjI)
qed

section \<open>Semantic ids outside the label table\<close>

text \<open>
  A semantic id that the label table lacks is not dropped from a frame's percentage map:
  it is stored under \<open>unknown_\<close> followed by its decimal digits.
\<close>

lemma unknown_label_kept_in_percentages:
  assumes "map_of label_to_name l = None" "l \<in> set semantic_labels"
  shows "map_of (class_percentages_named_of semantic_labels) (''unknown_'' @ str_nat (unat l)) =
           Some (Fin (percent_of semantic_labels l))"
proof -
  have ne: "semantic_labels \<noteq> []"
    using assms(2) by auto
  have name: "class_name_of l = ''unknown_'' @ str_nat (unat l)"
    using assms(1) by (simp add: class_name_of_def dict_get_def)
  have inj: "inj class_name_of"
    by (rule injI) (rule class_name_of_inj)
  have "map_of (map (\<lambda>k. (class_name_of k, Fin (percent_of semantic_labels k))) (np_unique semantic_labels))
          (class_name_of l) = Some (Fin (percent_of semantic_labels l))"
    using assms(2) np_unique_set [of semantic_labels]
    by (intro map_of_is_SomeI) (auto simp: comp_def distinct_map np_unique_distinct
          intro: inj_on_subset [OF inj])
  then show ?thesis
    by (simp only: class_percentages_named_of_eq [OF ne] name)
qed

lemma str_nat_5: "str_nat 5 = ''5''"
  by code_simp

text \<open>
  Claim C5 fails for instances. A single point in view with semantic id 5, which the
  label table lacks, and instance id 1 is keyed \<open>unknown_5\<close> in the percentage map,
  but the instance derived from it gets the class \<open>unknown\<close>, without the id: the
  instance loop looks the id up with the default \<open>"unknown"\<close>, where the percentage map
  uses \<open>f"unknown_{label}"\<close>.
\<close>

theorem unknown_label_instance_class:
  "map_of label_to_name 5 = None
   \<and> semantic_of [65541] = [5] \<and> instance_ids_of [65541] = [1]
   \<and> class_percentages_named_of (semantic_of [65541]) = [(''unknown_5'', Fin 100)]
   \<and> identify_instances [(1, 2, 1)] [(Fin 1, Fin 2)] [65541] =
       Inr [\<lparr>inst_class = ''unknown'', inst_id = 1, spatial_location = ''top-left'',
             distance = sqrt 6\<rparr>]"
proof -
  have a: "map_of label_to_name 5 = None"
    by (simp add: label_to_name_def)
  have b: "semantic_of [65541] = [5]" "instance_ids_of [65541] = [1]"
    by (simp_all add: semantic_of_def instance_ids_of_def)
  have c: "class_percentages_named_of (semantic_of [65541]) = [(''unknown_5'', Fin 100)]"
    unfolding b by (simp add: stats_eval str_nat_5)
  have d: "identify_instances [(1, 2, 1)] [(Fin 1, Fin 2)] [65541] =
       Inr [\<lparr>inst_class = ''unknown'', inst_id = 1, spatial_location = ''top-left'',
             distance = sqrt 6\<rparr>]"
    by (simp add: stats_eval bool_index_def Let_def)
  from a b c d show ?thesis by (intro conjI)
qed

end
